theory Spec2Isabelle
  imports Complex_Main
begin

section \<open>JavaScript values\<close>

text \<open>
  The values the time series and the camera code compute with: a finite number, \<open>NaN\<close>,
  or \<open>undefined\<close> (the value of a field that is absent). Finite numbers are exact
  reals: rounding and the infinities of IEEE doubles are not modelled. Arithmetic follows
  JavaScript: an operand that is not a finite number makes the result \<open>NaN\<close>, and every
  comparison with such an operand is false.
\<close>

datatype jsval = Num real | NaN | Undefined

datatype error = TypeError | Error string

fun typeof_number :: "jsval \<Rightarrow> bool" where
  "typeof_number Undefined = False"
| "typeof_number _ = True"

fun isNaN :: "jsval \<Rightarrow> bool" where
  "isNaN (Num _) = False"
| "isNaN _ = True"

fun jlt :: "jsval \<Rightarrow> jsval \<Rightarrow> bool" where
  "jlt (Num a) (Num b) = (a < b)"
| "jlt _ _ = False"

fun jle :: "jsval \<Rightarrow> jsval \<Rightarrow> bool" where
  "jle (Num a) (Num b) = (a \<le> b)"
| "jle _ _ = False"

definition jgt :: "jsval \<Rightarrow> jsval \<Rightarrow> bool" where
  "jgt a b = jlt b a"

definition jge :: "jsval \<Rightarrow> jsval \<Rightarrow> bool" where
  "jge a b = jle b a"

fun jadd :: "jsval \<Rightarrow> jsval \<Rightarrow> jsval" where
  "jadd (Num a) (Num b) = Num (a + b)"
| "jadd _ _ = NaN"

fun jsub :: "jsval \<Rightarrow> jsval \<Rightarrow> jsval" where
  "jsub (Num a) (Num b) = Num (a - b)"
| "jsub _ _ = NaN"

fun jmul :: "jsval \<Rightarrow> jsval \<Rightarrow> jsval" where
  "jmul (Num a) (Num b) = Num (a * b)"
| "jmul _ _ = NaN"

text \<open>
  In JavaScript \<open>x / 0\<close> is an infinity when \<open>x\<close> is a non-zero number. No division of
  the code below has a zero divisor with such a numerator (each is guarded or divides by a
  non-zero constant), so the zero divisor is mapped to \<open>NaN\<close>.
\<close>

fun jdiv :: "jsval \<Rightarrow> jsval \<Rightarrow> jsval" where
  "jdiv (Num a) (Num b) = (if b = 0 then NaN else Num (a / b))"
| "jdiv _ _ = NaN"

fun jabs :: "jsval \<Rightarrow> jsval" where
  "jabs (Num a) = Num \<bar>a\<bar>"
| "jabs _ = NaN"

fun jfloor :: "jsval \<Rightarrow> jsval" where
  "jfloor (Num a) = Num (of_int \<lfloor>a\<rfloor>)"
| "jfloor _ = NaN"

fun jmin :: "jsval \<Rightarrow> jsval \<Rightarrow> jsval" where
  "jmin (Num a) (Num b) = Num (min a b)"
| "jmin _ _ = NaN"

fun jmax :: "jsval \<Rightarrow> jsval \<Rightarrow> jsval" where
  "jmax (Num a) (Num b) = Num (max a b)"
| "jmax _ _ = NaN"

section \<open>Samples and series\<close>

text \<open>
  A sample is an object: its keys in insertion order with their values. A series is an
  array of samples; \<open>None\<close> is an entry that is \<open>undefined\<close>. Reading an index outside
  the array, or one that is not an integer, gives \<open>undefined\<close> as well. The series
  variable itself can be unset, which is \<open>None\<close> at the level of \<open>series option\<close>.
\<close>

type_synonym sample = "(string \<times> jsval) list"

type_synonym series = "sample option list"

definition field_of :: "sample \<Rightarrow> string \<Rightarrow> jsval" where
  "field_of s k = (case map_of s k of None \<Rightarrow> Undefined | Some v \<Rightarrow> v)"

definition entry :: "series \<Rightarrow> int \<Rightarrow> sample option" where
  "entry es i = (if 0 \<le> i \<and> i < int (length es) then es ! nat i else None)"

definition at_js :: "series \<Rightarrow> jsval \<Rightarrow> sample option" where
  "at_js es v = (case v of
       Num r \<Rightarrow> (if of_int \<lfloor>r\<rfloor> = r then entry es \<lfloor>r\<rfloor> else None)
     | _ \<Rightarrow> None)"

text \<open>\<open>energyData[i].time\<close>: a TypeError when the entry is \<open>undefined\<close>.\<close>

definition time_at :: "series \<Rightarrow> int \<Rightarrow> error + jsval" where
  "time_at es i = (case entry es i of None \<Rightarrow> Inl TypeError | Some s \<Rightarrow> Inr (field_of s ''time''))"

text \<open>
  The well-formed series of the data model: every entry present, with a finite time and a
  finite energy, as the rows \<open>time,energy\<close> of the energy file are parsed.
\<close>

definition sample_of :: "real \<times> real \<Rightarrow> sample option" where
  "sample_of p = Some [(''time'', Num (fst p)), (''energy'', Num (snd p))]"

definition series_of :: "(real \<times> real) list \<Rightarrow> series" where
  "series_of xs = map sample_of xs"

section \<open>utils.js: findClosestTimeIndex\<close>

text \<open>
  The code after the \<open>while\<close> loop of \<open>findClosestTimeIndex\<close>, at the final
  \<open>left\<close> and \<open>right\<close>.
\<close>

definition closest_after :: "jsval \<Rightarrow> series \<Rightarrow> int \<Rightarrow> int \<Rightarrow> error + int" where
  "closest_after time es left right =
     (if right < 0 then Inr 0
      else if left \<ge> int (length es) then Inr (int (length es) - 1)
      else (case time_at es right of
              Inl e \<Rightarrow> Inl e
            | Inr rt \<Rightarrow> (case time_at es left of
                 Inl e \<Rightarrow> Inl e
               | Inr lt \<Rightarrow>
                   (let leftDiff = jabs (jsub rt time);
                        rightDiff = jabs (jsub lt time)
                    in Inr (if jlt leftDiff rightDiff then right else left)))))"

function closest_loop :: "jsval \<Rightarrow> series \<Rightarrow> int \<Rightarrow> int \<Rightarrow> error + int" where
  "closest_loop time es left right =
     (if left \<le> right then
        (case time_at es ((left + right) div 2) of
           Inl e \<Rightarrow> Inl e
         | Inr tm \<Rightarrow>
             if jlt tm time then closest_loop time es ((left + right) div 2 + 1) right
             else if jgt tm time then closest_loop time es left ((left + right) div 2 - 1)
             else Inr ((left + right) div 2))
      else closest_after time es left right)"
  by pat_completeness auto
termination
  by (relation "measure (\<lambda>(time, es, left, right). nat (right - left + 1))") auto

declare closest_loop.simps [simp del]

text \<open>\<open>energyData.length\<close> on an unset series is a TypeError.\<close>

definition findClosestTimeIndex :: "jsval \<Rightarrow> series option \<Rightarrow> error + int" where
  "findClosestTimeIndex time energyData =
     (case energyData of
        None \<Rightarrow> Inl TypeError
      | Some es \<Rightarrow> closest_loop time es 0 (int (length es) - 1))"

section \<open>utils.js: findExactIndexFromTime\<close>

text \<open>
  The test \<open>energyData[i] && typeof energyData[i].time === 'number'\<close>. \<open>NaN\<close> has the
  type \<open>number\<close> and passes it.
\<close>

definition valid_time :: "series \<Rightarrow> int \<Rightarrow> bool" where
  "valid_time es i =
     (case entry es i of None \<Rightarrow> False | Some s \<Rightarrow> typeof_number (field_of s ''time''))"

text \<open>
  The search for a valid index when the sample at \<open>mid\<close> is invalid: upwards from
  \<open>mid\<close> to \<open>right\<close>, then downwards from \<open>mid - 1\<close> to \<open>left\<close>. \<open>None\<close> is the
  source's \<open>validIndex === -1\<close>.
\<close>

definition find_valid :: "series \<Rightarrow> int \<Rightarrow> int \<Rightarrow> int \<Rightarrow> int option" where
  "find_valid es mid left right =
     (case List.find (valid_time es) [mid..right] of
        Some i \<Rightarrow> Some i
      | None \<Rightarrow> List.find (valid_time es) (rev [left..mid - 1]))"

text \<open>The code after the \<open>while\<close> loop of \<open>findExactIndexFromTime\<close>.\<close>

definition exact_after :: "jsval \<Rightarrow> series \<Rightarrow> int \<Rightarrow> int \<Rightarrow> error + jsval" where
  "exact_after time es left right =
     (case time_at es left of
        Inl e \<Rightarrow> Inl e
      | Inr leftTime \<Rightarrow>
          if jlt (jabs (jsub leftTime time)) (Num (1 / 1000)) then Inr (Num (of_int left))
          else (case time_at es right of
             Inl e \<Rightarrow> Inl e
           | Inr rightTime \<Rightarrow>
               if jlt (jabs (jsub rightTime time)) (Num (1 / 1000)) then Inr (Num (of_int right))
               else (let timeDiff = jsub rightTime leftTime in
                     if jle timeDiff (Num 0) then Inr (Num (of_int left))
                     else (let fraction = jdiv (jsub time leftTime) timeDiff
                           in Inr (jadd (Num (of_int left)) fraction)))))"

lemma find_Some_in: "List.find P xs = Some x \<Longrightarrow> x \<in> set xs \<and> P x"
  by (induction xs) (auto split: if_splits)

lemma find_valid_range:
  assumes "find_valid es mid left right = Some v"
  shows "(mid \<le> v \<and> v \<le> right) \<or> (left \<le> v \<and> v < mid)"
proof (cases "List.find (valid_time es) [mid..right]")
  case None
  then have "List.find (valid_time es) (rev [left..mid - 1]) = Some v"
    using assms by (simp add: find_valid_def)
  then have "v \<in> set (rev [left..mid - 1])"
    using find_Some_in by fastforce
  then show ?thesis by simp
next
  case (Some i)
  then have "i = v" using assms by (simp add: find_valid_def)
  then have "v \<in> set [mid..right]"
    using Some find_Some_in by fastforce
  then show ?thesis by simp
qed

function exact_loop :: "jsval \<Rightarrow> series \<Rightarrow> int \<Rightarrow> int \<Rightarrow> error + jsval" where
  "exact_loop time es left right =
     (if right - left > 1 then
        (if \<not> valid_time es ((left + right) div 2) then
           (case find_valid es ((left + right) div 2) left right of
              None \<Rightarrow> Inr (Num 0)
            | Some validIndex \<Rightarrow>
                if validIndex \<ge> (left + right) div 2 then exact_loop time es validIndex right
                else exact_loop time es left validIndex)
         else (case time_at es ((left + right) div 2) of
              Inl e \<Rightarrow> Inl e
            | Inr tm \<Rightarrow>
                if jlt tm time then exact_loop time es ((left + right) div 2) right
                else exact_loop time es left ((left + right) div 2)))
      else exact_after time es left right)"
  by pat_completeness auto
termination
proof (relation "measure (\<lambda>(time, es, left, right). nat (right - left))", goal_cases)
  case 1
  show ?case by simp
next
  case (2 time es left right v)
  then show ?case using find_valid_range[of es "(left + right) div 2" left right v] by auto
next
  case (3 time es left right v)
  then show ?case using find_valid_range[of es "(left + right) div 2" left right v] by auto
next
  case 4
  then show ?case by auto
next
  case 5
  then show ?case by auto
qed

declare exact_loop.simps [simp del]

text \<open>
  \<open>findExactIndexFromTime\<close>. An exception inside the \<open>try\<close> block is caught and the
  function returns 0.
\<close>

definition findExactIndexFromTime :: "jsval \<Rightarrow> series option \<Rightarrow> jsval" where
  "findExactIndexFromTime time energyData =
     (case energyData of
        None \<Rightarrow> Num 0
      | Some es \<Rightarrow>
          if length es = 0 then Num 0
          else if \<not> typeof_number time \<or> isNaN time then Num 0
          else if \<not> valid_time es 0 \<or> \<not> valid_time es (int (length es) - 1) then Num 0
          else (case exact_loop time es 0 (int (length es) - 1) of
                  Inl e \<Rightarrow> Num 0
                | Inr r \<Rightarrow> r))"

section \<open>utils.js: findNormalizedPositionFromTime\<close>

text \<open>
  The energy change rate of \<open>findNormalizedPositionFromTime\<close>: the absolute difference
  of the energies at \<open>idx\<close> and \<open>nextIdx\<close> when both samples exist and both energies
  have the type \<open>number\<close>, otherwise 0.
\<close>

definition positionChangeRate :: "series \<Rightarrow> jsval \<Rightarrow> jsval \<Rightarrow> jsval" where
  "positionChangeRate es idx nextIdx =
     (case (at_js es nextIdx, at_js es idx) of
        (Some sn, Some si) \<Rightarrow>
          if typeof_number (field_of sn ''energy'') \<and> typeof_number (field_of si ''energy'')
          then jabs (jsub (field_of sn ''energy'') (field_of si ''energy''))
          else Num 0
      | _ \<Rightarrow> Num 0)"

definition findNormalizedPositionFromTime :: "jsval \<Rightarrow> series option \<Rightarrow> jsval" where
  "findNormalizedPositionFromTime time energyData =
     (case energyData of
        None \<Rightarrow> Num 0
      | Some es \<Rightarrow>
          if length es = 0 then Num 0
          else if \<not> typeof_number time \<or> isNaN time then Num 0
          else
            (let exactIndex = findExactIndexFromTime time energyData in
             if jle exactIndex (Num 0) then Num 0
             else if jge exactIndex (Num (of_int (int (length es) - 1))) then Num (99 / 100)
             else
               (let idx = jfloor exactIndex;
                    nextIdx = jmin (jadd idx (Num 1)) (Num (of_int (int (length es) - 1)));
                    energyChangeRate = positionChangeRate es idx nextIdx;
                    speedMultiplier = jadd (Num (15 / 10)) (jmul energyChangeRate (Num 5));
                    basePosition = jdiv exactIndex (Num (of_int (int (length es) - 1)))
                in jmin (Num (99 / 100)) (jmul basePosition speedMultiplier))))"

text \<open>
  Series none of whose fields is \<open>NaN\<close>: every field is a finite number or not a
  number at all, and entries may be missing.
\<close>

definition nan_free :: "series \<Rightarrow> bool" where
  "nan_free es = (\<forall>s k. Some s \<in> set es \<longrightarrow> map_of s k \<noteq> Some NaN)"

section \<open>config.js: zones and shared state\<close>

text \<open>
  The names of \<open>zonePalettes\<close>, by key 0 to 4; \<open>zoneCount\<close> is the number of keys.
\<close>

definition zoneNames :: "string list" where
  "zoneNames = [''low'', ''medium'', ''high'', ''ethereal'', ''cosmic'']"

definition zoneCount :: nat where
  "zoneCount = length zoneNames"

text \<open>\<open>zonePalettes[n]\<close> for a number \<open>n\<close>: defined when \<open>n\<close> is one of the keys.\<close>

definition zonePalette :: "real \<Rightarrow> string option" where
  "zonePalette n =
     (if of_int \<lfloor>n\<rfloor> = n \<and> 0 \<le> n \<and> n < real zoneCount then Some (zoneNames ! nat \<lfloor>n\<rfloor>)
      else None)"

text \<open>
  \<open>getZoneNameFromValue\<close>. \<open>Number(zoneValue)\<close> is \<open>NaN\<close> for \<open>undefined\<close>. The
  remainder \<open>n % zoneCount\<close> is taken of a non-negative \<open>n\<close>; when it is not a key
  (a value that is not an integer), reading \<open>.name\<close> of the missing palette is a
  TypeError.
\<close>

definition getZoneNameFromValue :: "jsval \<Rightarrow> error + string" where
  "getZoneNameFromValue zoneValue =
     (case zoneValue of
        Num n \<Rightarrow>
          if n < 0 then Inr (zoneNames ! 0)
          else (case zonePalette n of
                  Some name \<Rightarrow> Inr name
                | None \<Rightarrow>
                    (case zonePalette (n - real zoneCount * of_int \<lfloor>n / real zoneCount\<rfloor>) of
                       Some name \<Rightarrow> Inr name
                     | None \<Rightarrow> Inl TypeError))
      | _ \<Rightarrow> Inr (zoneNames ! 0))"

text \<open>
  The shared \<open>state\<close> object, with the fields the modelled code reads or writes. The
  current zone is a zone name, or \<open>undefined\<close> (\<open>None\<close>). The initial state is the
  one \<open>config.js\<close> exports.
\<close>

record app_state =
  currentIndex :: int
  currentZone :: "string option"
  firstPersonMode :: bool

definition initial_state :: app_state where
  "initial_state = \<lparr>currentIndex = 0, currentZone = Some ''low'', firstPersonMode = True\<rparr>"

text \<open>A dispatched \<open>CustomEvent\<close>: its type and the two fields of its \<open>detail\<close>.\<close>

record zone_event =
  event_type :: string
  detail_zone :: "string option"
  detail_energy :: jsval

section \<open>main.js: updateUIIndicators\<close>

text \<open>
  The energy fallback: \<open>Math.min(Math.floor(currentEnergy / zoneSize), zoneCount - 1)\<close>
  with \<open>zoneSize = 1.0 / zoneCount\<close>.
\<close>

definition energyZoneIndex :: "jsval \<Rightarrow> jsval" where
  "energyZoneIndex currentEnergy =
     jmin (jfloor (jdiv currentEnergy (Num (1 / real zoneCount)))) (Num (real zoneCount - 1))"

text \<open>The candidate zone \<open>newZone\<close> of \<open>updateUIIndicators\<close>.\<close>

definition uiNewZone :: "series option \<Rightarrow> int \<Rightarrow> jsval \<Rightarrow> error + string" where
  "uiNewZone zoneData index currentEnergy =
     (case (case zoneData of None \<Rightarrow> None | Some zs \<Rightarrow> entry zs index) of
        Some z \<Rightarrow>
          (let zoneValue = field_of z ''zone'' in
           if typeof_number zoneValue \<and> \<not> isNaN zoneValue then getZoneNameFromValue zoneValue
           else getZoneNameFromValue (energyZoneIndex currentEnergy))
      | None \<Rightarrow> getZoneNameFromValue (energyZoneIndex currentEnergy))"

text \<open>
  \<open>updateUIIndicators\<close>, with \<open>window.zoneData\<close> and the shared state as arguments; it
  returns the new state and the events it dispatched on \<open>document\<close>. The texts written to
  the page are not modelled, but one effect of writing them is:
  \<open>currentEnergy.toFixed(2)\<close> is evaluated when the element \<open>current-energy\<close> exists
  (\<open>energyEl\<close>), and is a TypeError when the energy is \<open>undefined\<close>.
\<close>

definition updateUIIndicators ::
  "bool \<Rightarrow> series option \<Rightarrow> series \<Rightarrow> int \<Rightarrow> app_state \<Rightarrow> error + app_state \<times> zone_event list"
where
  "updateUIIndicators energyEl zoneData energyData index st =
     (case entry energyData index of
        None \<Rightarrow> Inr (st, [])
      | Some e \<Rightarrow>
          (let currentEnergy = field_of e ''energy'' in
           if energyEl \<and> currentEnergy = Undefined then Inl TypeError
           else (case uiNewZone zoneData index currentEnergy of
                   Inl err \<Rightarrow> Inl err
                 | Inr newZone \<Rightarrow>
                     if Some newZone \<noteq> currentZone st
                     then Inr (st\<lparr>currentZone := Some newZone\<rparr>,
                               [\<lparr>event_type = ''zoneChange'', detail_zone = Some newZone,
                                 detail_energy = currentEnergy\<rparr>])
                     else Inr (st, []))))"

section \<open>audio.js: updatePositionFromTime\<close>

text \<open>\<open>['low', 'medium', 'high'][zoneValue]\<close>: \<open>undefined\<close> outside the three indices.\<close>

definition legacyZoneName :: "jsval \<Rightarrow> string option" where
  "legacyZoneName zoneValue =
     (case zoneValue of
        Num n \<Rightarrow>
          if of_int \<lfloor>n\<rfloor> = n \<and> 0 \<le> n \<and> n < 3 then Some ([''low'', ''medium'', ''high''] ! nat \<lfloor>n\<rfloor>)
          else None
      | _ \<Rightarrow> None)"

definition legacyEnergyZone :: "jsval \<Rightarrow> string" where
  "legacyEnergyZone currentEnergy =
     (if jlt currentEnergy (Num (33 / 100)) then ''low''
      else if jge currentEnergy (Num (33 / 100)) \<and> jle currentEnergy (Num (66 / 100)) then ''medium''
      else ''high'')"

text \<open>The candidate zone \<open>newZone\<close> of \<open>updatePositionFromTime\<close>.\<close>

definition audioNewZone :: "series option \<Rightarrow> int \<Rightarrow> jsval \<Rightarrow> string option" where
  "audioNewZone zoneData index currentEnergy =
     (case (case zoneData of None \<Rightarrow> None | Some zs \<Rightarrow> entry zs index) of
        Some z \<Rightarrow> legacyZoneName (field_of z ''zone'')
      | None \<Rightarrow> Some (legacyEnergyZone currentEnergy))"

text \<open>
  \<open>updatePositionFromTime\<close>, the handler of the audio element's \<open>timeupdate\<close> event.
  \<open>audioTime\<close> is \<open>audioElement.currentTime\<close>, \<open>None\<close> when there is no audio
  element; the two series are \<open>window.energyData\<close> and \<open>window.zoneData\<close>.
\<close>

definition updatePositionFromTime ::
  "jsval option \<Rightarrow> series option \<Rightarrow> series option \<Rightarrow> app_state \<Rightarrow> error + app_state \<times> zone_event list"
where
  "updatePositionFromTime audioTime energyData zoneData st =
     (case (audioTime, energyData) of
        (Some currentTime, Some es) \<Rightarrow>
          (case findClosestTimeIndex currentTime energyData of
             Inl err \<Rightarrow> Inl err
           | Inr newIndex \<Rightarrow>
               if newIndex \<noteq> currentIndex st then
                 (let st1 = st\<lparr>currentIndex := newIndex\<rparr> in
                  case entry es newIndex of
                    None \<Rightarrow> Inr (st1, [])
                  | Some e \<Rightarrow>
                      (let currentEnergy = field_of e ''energy'';
                           newZone = audioNewZone zoneData newIndex currentEnergy
                       in if newZone \<noteq> currentZone st1
                          then Inr (st1\<lparr>currentZone := newZone\<rparr>,
                                    [\<lparr>event_type = ''zoneChange'', detail_zone = newZone,
                                      detail_energy = currentEnergy\<rparr>])
                          else Inr (st1, [])))
               else Inr (st, []))
      | _ \<Rightarrow> Inr (st, []))"

section \<open>The zone state machine over a sequence of inputs\<close>

text \<open>
  The state machine is driven from outside: \<open>animate\<close> calls \<open>updateUIIndicators\<close> once
  per frame with the index resolved from the audio time, and the browser calls \<open>updatePositionFromTime\<close> on
  every \<open>timeupdate\<close>. \<open>zoneRun\<close> applies a step to a sequence of inputs and collects
  the events in order. A step that throws has changed nothing (both functions throw only
  before they write the state), and the next call runs from the same state.
\<close>

fun zoneRun ::
  "(app_state \<Rightarrow> 'i \<Rightarrow> error + app_state \<times> zone_event list) \<Rightarrow> app_state \<Rightarrow> 'i list
     \<Rightarrow> app_state \<times> zone_event list"
where
  "zoneRun step st [] = (st, [])"
| "zoneRun step st (x # xs) =
     (case step st x of
        Inl err \<Rightarrow> zoneRun step st xs
      | Inr (st1, evs) \<Rightarrow> (case zoneRun step st1 xs of (st2, evs2) \<Rightarrow> (st2, evs @ evs2)))"

text \<open>The zone series of the zone file: rows \<open>time,zone\<close>.\<close>

definition zones_of :: "(real \<times> real) list \<Rightarrow> series" where
  "zones_of zs = map (\<lambda>p. Some [(''time'', Num (fst p)), (''zone'', Num (snd p))]) zs"

section \<open>Event listeners\<close>

text \<open>
  The listeners registered on \<open>document\<close> by the modelled code, as pairs of the event
  type and the handler's name: \<open>createEnvironmentElements\<close> registers
  \<open>handleZoneChange\<close> for the type \<open>zonechange\<close>, and no other listener for a zone event
  is registered on \<open>document\<close>. Dispatching an event invokes the listeners registered
  for exactly its type: the comparison of event types is that of strings, and
  case-sensitive.
\<close>

definition documentListeners :: "(string \<times> string) list" where
  "documentListeners = [(''zonechange'', ''handleZoneChange'')]"

definition dispatchEvent :: "(string \<times> string) list \<Rightarrow> zone_event \<Rightarrow> string list" where
  "dispatchEvent listeners ev = map snd (filter (\<lambda>l. fst l = event_type ev) listeners)"

section \<open>Vectors\<close>

text \<open>
  A three.js \<open>Vector3\<close>, with the operations of three.js the modelled code calls.
  \<open>normalize\<close> divides by the length, or by 1 when the length is 0 or \<open>NaN\<close>.
\<close>

record vec3 =
  vx :: jsval
  vy :: jsval
  vz :: jsval

fun jsqrt :: "jsval \<Rightarrow> jsval" where
  "jsqrt (Num a) = (if a < 0 then NaN else Num (sqrt a))"
| "jsqrt _ = NaN"



fun jatan :: "jsval \<Rightarrow> jsval" where
  "jatan (Num a) = Num (arctan a)"
| "jatan _ = NaN"

fun jsign :: "jsval \<Rightarrow> jsval" where
  "jsign (Num a) = Num (sgn a)"
| "jsign _ = NaN"


definition crossVectors :: "vec3 \<Rightarrow> vec3 \<Rightarrow> vec3" where
  "crossVectors a b =
     \<lparr>vx = jsub (jmul (vy a) (vz b)) (jmul (vz a) (vy b)),
      vy = jsub (jmul (vz a) (vx b)) (jmul (vx a) (vz b)),
      vz = jsub (jmul (vx a) (vy b)) (jmul (vy a) (vx b))\<rparr>"

definition vlength :: "vec3 \<Rightarrow> jsval" where
  "vlength v = jsqrt (jadd (jadd (jmul (vx v) (vx v)) (jmul (vy v) (vy v))) (jmul (vz v) (vz v)))"

definition multiplyScalar :: "vec3 \<Rightarrow> jsval \<Rightarrow> vec3" where
  "multiplyScalar v s = \<lparr>vx = jmul (vx v) s, vy = jmul (vy v) s, vz = jmul (vz v) s\<rparr>"

definition normalize :: "vec3 \<Rightarrow> vec3" where
  "normalize v =
     (case vlength v of
        Num l \<Rightarrow> if l = 0 then v else multiplyScalar v (Num (1 / l))
      | _ \<Rightarrow> v)"

definition vadd :: "vec3 \<Rightarrow> vec3 \<Rightarrow> vec3" where
  "vadd a b = \<lparr>vx = jadd (vx a) (vx b), vy = jadd (vy a) (vy b), vz = jadd (vz a) (vz b)\<rparr>"

text \<open>
  The test the code makes of a point it got from the curve: the object exists and its three
  coordinates have the type \<open>number\<close>.
\<close>

definition validPoint :: "vec3 option \<Rightarrow> bool" where
  "validPoint p =
     (case p of
        None \<Rightarrow> False
      | Some v \<Rightarrow> typeof_number (vx v) \<and> typeof_number (vy v) \<and> typeof_number (vz v))"

section \<open>rollercoaster.js: createRollercoaster\<close>












section \<open>camera.js\<close>

text \<open>
  The curve is an object of three.js, outside the repository: \<open>getPointAt\<close> and
  \<open>getTangentAt\<close> are arbitrary functions of the parameter, which may throw, return
  nothing (\<open>None\<close>) or return a vector with a coordinate that is not a number. Each call
  the camera code makes is recorded as a \<open>path_query\<close>.
\<close>

record curve =
  getPointAt :: "jsval \<Rightarrow> error + vec3 option"
  getTangentAt :: "jsval \<Rightarrow> error + vec3 option"

datatype path_query = PointAt jsval | TangentAt jsval

fun query_param :: "path_query \<Rightarrow> jsval" where
  "query_param (PointAt t) = t"
| "query_param (TangentAt t) = t"

text \<open>
  The camera: its position and its Euler rotation. \<open>camera.lookAt\<close> is three.js's: the
  rotation it sets is a function \<open>lookAt\<close> of the camera's position and the target,
  a parameter of the model.
\<close>

record camera =
  position :: vec3
  rotation :: vec3

text \<open>
  The rate of energy change of \<open>updateCameraPosition\<close>: half the difference of the
  energies at \<open>nextEnergyIndex\<close> and \<open>prevEnergyIndex\<close>, the neighbours of
  \<open>currentEnergyIndex = Math.floor(findNormalizedPositionFromTime(exactTime, energyData))\<close>.
\<close>

definition cameraEnergyChangeRate :: "jsval \<Rightarrow> series \<Rightarrow> jsval" where
  "cameraEnergyChangeRate exactTime energyData =
     (let currentEnergyIndex = jfloor (findNormalizedPositionFromTime exactTime (Some energyData));
          prevEnergyIndex = jmax (Num 0) (jsub currentEnergyIndex (Num 1));
          nextEnergyIndex = jmin (Num (of_int (int (length energyData) - 1))) (jadd currentEnergyIndex (Num 1))
      in case (at_js energyData nextEnergyIndex, at_js energyData prevEnergyIndex) of
           (Some sn, Some sp) \<Rightarrow>
             if typeof_number (field_of sn ''energy'') \<and> typeof_number (field_of sp ''energy'')
             then jdiv (jsub (field_of sn ''energy'') (field_of sp ''energy'')) (Num 2)
             else Num 0
         | _ \<Rightarrow> Num 0)"

text \<open>
  The inner \<open>try\<close> block: tilt and roll from the points just ahead and just behind. An
  exception from the curve is caught and leaves the camera as it is.
\<close>

definition applyTilt :: "curve \<Rightarrow> jsval \<Rightarrow> jsval \<Rightarrow> camera \<Rightarrow> camera \<times> path_query list" where
  "applyTilt path safePosition energyChangeRate cam =
     (let ahead = jmin (jadd safePosition (Num (1 / 100))) (Num (99 / 100));
          behind = jmax (jsub safePosition (Num (1 / 100))) (Num 0)
      in case getPointAt path ahead of
           Inl e \<Rightarrow> (cam, [PointAt ahead])
         | Inr nextPos \<Rightarrow>
             (case getPointAt path behind of
                Inl e \<Rightarrow> (cam, [PointAt ahead, PointAt behind])
              | Inr prevPos \<Rightarrow>
                  (case (nextPos, prevPos) of
                     (Some np, Some pp) \<Rightarrow>
                       if validPoint nextPos \<and> validPoint prevPos then
                         (let dx = jsub (vx np) (vx pp);
                              dz = jsub (vz np) (vz pp);
                              horizontalDistance = jsqrt (jadd (jmul dx dx) (jmul dz dz))
                          in if jgt horizontalDistance (Num (1 / 1000)) then
                               (let slope = jdiv (jsub (vy np) (vy pp)) horizontalDistance;
                                    tiltMultiplier = jadd (Num 1) (jmul (jabs energyChangeRate) (Num 5));
                                    tiltAngle = jmul (jmul (jatan slope) (Num (8 / 10))) tiltMultiplier;
                                    turnDirection = jsign (jsub (jmul dx (vz pp)) (jmul dz (vx pp)));
                                    turnSharpness =
                                      jmin (Num 1) (jdiv (jsqrt (jadd (jmul dx dx) (jmul dz dz))) (Num 10));
                                    rollAngle =
                                      jmul (jmul (jmul turnDirection turnSharpness) (Num (2 / 10))) tiltMultiplier
                                in (cam\<lparr>rotation := (rotation cam)
                                          \<lparr>vx := jadd (vx (rotation cam)) tiltAngle,
                                           vz := jadd (vz (rotation cam)) rollAngle\<rparr>\<rparr>,
                                    [PointAt ahead, PointAt behind]))
                             else (cam, [PointAt ahead, PointAt behind]))
                       else (cam, [PointAt ahead, PointAt behind])
                   | _ \<Rightarrow> (cam, [PointAt ahead, PointAt behind]))))"

text \<open>
  The camera shake: three calls of \<open>Math.random()\<close>, whose results are the arguments
  \<open>r1\<close>, \<open>r2\<close> and \<open>r3\<close>, made only when the rate of change exceeds 0.05 in
  absolute value.
\<close>

definition applyShake :: "jsval \<Rightarrow> real \<times> real \<times> real \<Rightarrow> camera \<Rightarrow> camera" where
  "applyShake energyChangeRate rnd cam =
     (if jgt (jabs energyChangeRate) (Num (5 / 100)) then
        (let shakeIntensity = jmul (jabs energyChangeRate) (Num (5 / 100));
             r1 = fst rnd; r2 = fst (snd rnd); r3 = snd (snd rnd)
         in cam\<lparr>position := (position cam)
                  \<lparr>vx := jadd (vx (position cam)) (jmul (Num (r1 - 1 / 2)) shakeIntensity),
                   vy := jadd (vy (position cam)) (jmul (Num (r2 - 1 / 2)) shakeIntensity),
                   vz := jadd (vz (position cam)) (jmul (Num (r3 - 1 / 2)) shakeIntensity)\<rparr>\<rparr>)
      else cam)"

definition defaultHeightAboveTrack :: real where
  "defaultHeightAboveTrack = 4"

text \<open>
  \<open>updateCameraPosition\<close>. Arguments: three.js's \<open>lookAt\<close>; the flag
  \<open>firstPersonControls.mouseDrag\<close>; the results \<open>rnd\<close> of \<open>Math.random()\<close>; the
  shared state; the curve (\<open>None\<close> when there is none); \<open>audioElement.currentTime\<close>
  (\<open>None\<close> when there is no audio element); the energy series; the camera. It returns the
  camera and the queries made to the curve, in order. An exception inside the outer
  \<open>try\<close> block is caught and logged: the camera keeps what was written before it.
\<close>

definition updateCameraPosition ::
  "(vec3 \<Rightarrow> vec3 \<Rightarrow> vec3) \<Rightarrow> bool \<Rightarrow> real \<times> real \<times> real \<Rightarrow> app_state \<Rightarrow> curve option \<Rightarrow> jsval option
     \<Rightarrow> series \<Rightarrow> camera \<Rightarrow> camera \<times> path_query list"
where
  "updateCameraPosition lookAt mouseDrag rnd st rollercoasterPath audioTime energyData cam =
     (case (rollercoasterPath, entry energyData (currentIndex st), audioTime) of
        (Some path, Some current, Some exactTime) \<Rightarrow>
          if \<not> firstPersonMode st then (cam, [])
          else
            (let normalizedPosition = findNormalizedPositionFromTime exactTime (Some energyData);
                 energyChangeRate = cameraEnergyChangeRate exactTime energyData;
                 safePosition = jmax (Num 0) (jmin (Num (99 / 100)) normalizedPosition)
             in case getPointAt path safePosition of
                  Inl e \<Rightarrow> (cam, [PointAt safePosition])
                | Inr pos \<Rightarrow>
                    (case pos of
                       None \<Rightarrow> (cam, [PointAt safePosition])
                     | Some p \<Rightarrow>
                         if \<not> validPoint pos then (cam, [PointAt safePosition])
                         else
                           (case getTangentAt path safePosition of
                              Inl e \<Rightarrow> (cam, [PointAt safePosition, TangentAt safePosition])
                            | Inr tng \<Rightarrow>
                                (case tng of
                                   None \<Rightarrow> (cam, [PointAt safePosition, TangentAt safePosition])
                                 | Some tangent \<Rightarrow>
                                     if \<not> validPoint tng
                                     then (cam, [PointAt safePosition, TangentAt safePosition])
                                     else
                                       (let up = \<lparr>vx = Num 0, vy = Num 1, vz = Num 0\<rparr>;
                                            binormal = normalize (crossVectors tangent up);
                                            normal = normalize (crossVectors binormal tangent);
                                            dynamicHeightAdjustment = jmul energyChangeRate (Num 3);
                                            heightAboveTrack =
                                              jmax (Num 2) (jsub (Num defaultHeightAboveTrack) dynamicHeightAdjustment);
                                            cam1 = cam\<lparr>position := vadd p (multiplyScalar normal heightAboveTrack)\<rparr>;
                                            dynamicLookAhead =
                                              jmul (Num (1 / 100)) (jadd (Num 1) (jmul (jabs energyChangeRate) (Num 4)));
                                            lookAheadPosition =
                                              jmin (jadd safePosition dynamicLookAhead) (Num (99 / 100))
                                        in case getPointAt path lookAheadPosition of
                                             Inl e \<Rightarrow>
                                               (cam1, [PointAt safePosition, TangentAt safePosition,
                                                       PointAt lookAheadPosition])
                                           | Inr lookAtPoint \<Rightarrow>
                                               (let cam2 =
                                                      (case lookAtPoint of
                                                         Some target \<Rightarrow>
                                                           if validPoint lookAtPoint \<and> \<not> mouseDrag
                                                           then cam1\<lparr>rotation := lookAt (position cam1) target\<rparr>
                                                           else cam1
                                                       | None \<Rightarrow> cam1);
                                                    tilted = applyTilt path safePosition energyChangeRate cam2
                                                in (applyShake energyChangeRate rnd (fst tilted),
                                                    [PointAt safePosition, TangentAt safePosition,
                                                     PointAt lookAheadPosition] @ snd tilted)))))))
      | _ \<Rightarrow> (cam, []))"

text \<open>
  \<open>toggleViewMode\<close>: the new state, the target of the orbit controls and the queries made
  to the curve. \<open>energyData\<close> is \<open>window.energyData\<close>. Reading the time of a missing
  audio element throws inside the \<open>try\<close> block, and the target falls back to
  \<open>(0, 20, 0)\<close>.
\<close>

definition toggleViewMode ::
  "app_state \<Rightarrow> curve option \<Rightarrow> jsval option \<Rightarrow> series option \<Rightarrow> vec3
     \<Rightarrow> app_state \<times> vec3 \<times> path_query list"
where
  "toggleViewMode st rollercoasterPath audioTime energyData target =
     (let st1 = st\<lparr>firstPersonMode := \<not> firstPersonMode st\<rparr>;
          fallback = \<lparr>vx = Num 0, vy = Num 20, vz = Num 0\<rparr>
      in case rollercoasterPath of
           None \<Rightarrow> (st1, target, [])
         | Some path \<Rightarrow>
             if firstPersonMode st1 then (st1, target, [])
             else (case audioTime of
                     None \<Rightarrow> (st1, fallback, [])
                   | Some currentTime \<Rightarrow>
                       (let normalizedPosition = findNormalizedPositionFromTime currentTime energyData;
                            lookAheadPosition = jmin (jadd normalizedPosition (Num (5 / 100))) (Num (99 / 100))
                        in case getPointAt path lookAheadPosition of
                             Inl e \<Rightarrow> (st1, fallback, [PointAt lookAheadPosition])
                           | Inr targetPoint \<Rightarrow>
                               (case targetPoint of
                                  Some tp \<Rightarrow>
                                    if validPoint targetPoint then (st1, tp, [PointAt lookAheadPosition])
                                    else (st1, fallback, [PointAt lookAheadPosition])
                                | None \<Rightarrow> (st1, fallback, [PointAt lookAheadPosition])))))"

section \<open>Example inputs\<close>

text \<open>
  Inputs for the concrete evaluations below: the energy series of the specification's
  scenario; a series whose energy rises by 0.4 per sample; a series whose first energy is
  \<open>NaN\<close>, as \<open>parseFloat\<close> gives for a malformed field; a straight, level track along
  the x axis; the camera as \<open>setupCamera\<close> places it; and a stand-in for three.js's
  \<open>lookAt\<close> that always yields the zero rotation.
\<close>

abbreviation scenario_series :: series where
  "scenario_series \<equiv> series_of [(0, 1 / 10), (1, 2 / 10), (2, 9 / 10), (3, 95 / 100), (4, 2 / 10)]"

abbreviation rising_series :: series where
  "rising_series \<equiv> series_of [(0, 1 / 10), (1, 5 / 10), (2, 9 / 10)]"

abbreviation nan_energy_series :: series where
  "nan_energy_series \<equiv>
     [Some [(''time'', Num 0), (''energy'', NaN)],
      Some [(''time'', Num 1), (''energy'', Num (1 / 2))],
      Some [(''time'', Num 2), (''energy'', Num (1 / 2))]]"

abbreviation line_path :: curve where
  "line_path \<equiv>
     \<lparr>getPointAt = (\<lambda>v. case v of Num t \<Rightarrow> Inr (Some \<lparr>vx = Num (100 * t), vy = Num 0, vz = Num 0\<rparr>)
                                 | _ \<Rightarrow> Inr None),
      getTangentAt = (\<lambda>v. Inr (Some \<lparr>vx = Num 1, vy = Num 0, vz = Num 0\<rparr>))\<rparr>"

abbreviation start_camera :: camera where
  "start_camera \<equiv>
     \<lparr>position = \<lparr>vx = Num 0, vy = Num 2, vz = Num 0\<rparr>,
      rotation = \<lparr>vx = Num 0, vy = Num 0, vz = Num 0\<rparr>\<rparr>"

abbreviation level_lookAt :: "vec3 \<Rightarrow> vec3 \<Rightarrow> vec3" where
  "level_lookAt \<equiv> (\<lambda>p t. \<lparr>vx = Num 0, vy = Num 0, vz = Num 0\<rparr>)"

section \<open>Evaluation of the index functions\<close>

text \<open>The defining equations that evaluate the index functions on a concrete series.\<close>

lemmas utils_eval = findClosestTimeIndex_def series_of_def sample_of_def closest_loop.simps
      closest_after_def time_at_def entry_def field_of_def jgt_def jge_def
      findExactIndexFromTime_def exact_loop.simps exact_after_def valid_time_def find_valid_def
      findNormalizedPositionFromTime_def positionChangeRate_def at_js_def Let_def

section \<open>Properties of findClosestTimeIndex\<close>

lemma length_series_of: "length (series_of xs) = length xs"
  by (simp add: series_of_def)

lemma time_at_series_of:
  "0 \<le> i \<Longrightarrow> i < int (length xs) \<Longrightarrow> time_at (series_of xs) i = Inr (Num (fst (xs ! nat i)))"
  by (simp add: time_at_def entry_def series_of_def sample_of_def field_of_def)

lemma closest_loop_nearest:
  assumes "sorted (map fst xs)"
    and "0 \<le> l" and "r < int (length xs)" and "l \<le> r + 1"
    and "\<forall>j<length xs. int j < l \<longrightarrow> fst (xs ! j) < t"
    and "\<forall>j<length xs. r < int j \<longrightarrow> t < fst (xs ! j)"
  shows "\<exists>i. closest_loop (Num t) (series_of xs) l r = Inr (int i) \<and>
           (\<forall>j<length xs. i < length xs \<and> \<bar>fst (xs ! i) - t\<bar> \<le> \<bar>fst (xs ! j) - t\<bar>)"
  using assms
proof (induction "Num t" "series_of xs" l r rule: closest_loop.induct)
  case (1 left right)
  let ?n = "length xs"
  let ?ts = "\<lambda>j. fst (xs ! j)"
  have mono: "\<And>a b. a \<le> b \<Longrightarrow> b < ?n \<Longrightarrow> ?ts a \<le> ?ts b"
    using "1.prems"(1) by (simp add: sorted_iff_nth_mono)
  show ?case
  proof (cases "left \<le> right")
    case True
    define mid where "mid = (left + right) div 2"
    have m: "left \<le> mid" "mid \<le> right" "0 \<le> mid" "mid < int ?n"
      using True "1.prems" by (auto simp: mid_def)
    have tm: "time_at (series_of xs) mid = Inr (Num (?ts (nat mid)))"
      using m by (simp add: time_at_series_of)
    consider (lt) "?ts (nat mid) < t" | (gt) "t < ?ts (nat mid)" | (eq) "?ts (nat mid) = t"
      by linarith
    then show ?thesis
    proof cases
      case lt
      have below: "\<forall>j<?n. int j < mid + 1 \<longrightarrow> ?ts j < t"
      proof (intro allI impI)
        fix j assume "j < ?n" "int j < mid + 1"
        then have "?ts j \<le> ?ts (nat mid)" using mono[of j "nat mid"] m by simp
        then show "?ts j < t" using lt by simp
      qed
      have "\<exists>i. closest_loop (Num t) (series_of xs) (mid + 1) right = Inr (int i) \<and>
           (\<forall>j<length xs. i < length xs \<and> \<bar>fst (xs ! i) - t\<bar> \<le> \<bar>fst (xs ! j) - t\<bar>)"
        using "1.hyps"(1)[OF True tm[unfolded mid_def]] lt "1.prems" m below
        by (simp add: mid_def)
      then show ?thesis
        using True tm lt by (subst closest_loop.simps) (simp add: mid_def)
    next
      case gt
      then have ngt: "\<not> ?ts (nat mid) < t" by simp
      have above: "\<forall>j<?n. mid - 1 < int j \<longrightarrow> t < ?ts j"
      proof (intro allI impI)
        fix j assume "j < ?n" "mid - 1 < int j"
        then have "?ts (nat mid) \<le> ?ts j" using mono[of "nat mid" j] m by simp
        then show "t < ?ts j" using gt by simp
      qed
      have "\<exists>i. closest_loop (Num t) (series_of xs) left (mid - 1) = Inr (int i) \<and>
           (\<forall>j<length xs. i < length xs \<and> \<bar>fst (xs ! i) - t\<bar> \<le> \<bar>fst (xs ! j) - t\<bar>)"
        using "1.hyps"(2)[OF True tm[unfolded mid_def]] gt ngt "1.prems" m above
        by (simp add: mid_def jgt_def)
      then show ?thesis
        using True tm gt ngt by (subst closest_loop.simps) (simp add: mid_def jgt_def)
    next
      case eq
      have "closest_loop (Num t) (series_of xs) left right = Inr (int (nat mid))"
        using True tm eq m by (subst closest_loop.simps) (simp add: mid_def jgt_def)
      moreover have "\<forall>j<?n. nat mid < ?n \<and> \<bar>?ts (nat mid) - t\<bar> \<le> \<bar>?ts j - t\<bar>"
        using eq m by auto
      ultimately show ?thesis by blast
    qed
  next
    case False
    then have lr: "left = right + 1" using "1.prems" by simp
    have loop: "closest_loop (Num t) (series_of xs) left right = closest_after (Num t) (series_of xs) left right"
      using False by (subst closest_loop.simps) simp
    show ?thesis
    proof (cases "right < 0")
      case True
      then have "left = 0" using lr "1.prems" by simp
      have "closest_after (Num t) (series_of xs) left right = Inr (int 0)"
        using True by (simp add: closest_after_def)
      moreover have "\<forall>j<?n. 0 < ?n \<and> \<bar>?ts 0 - t\<bar> \<le> \<bar>?ts j - t\<bar>"
      proof (intro allI impI)
        fix j assume j: "j < ?n"
        have "0 < ?n" using j by (cases xs) auto
        then have "t < ?ts 0" using "1.prems"(6)[rule_format, of 0] True by simp
        moreover have "?ts 0 \<le> ?ts j" using mono[of 0 j] j by simp
        ultimately show "0 < ?n \<and> \<bar>?ts 0 - t\<bar> \<le> \<bar>?ts j - t\<bar>" using j by auto
      qed
      ultimately show ?thesis using loop by metis
    next
      case r0: False
      show ?thesis
      proof (cases "left \<ge> int ?n")
        case True
        then have rn: "right = int ?n - 1" using lr "1.prems" by simp
        have "0 < ?n" using r0 rn by simp
        then have nn: "int ?n - 1 = int (?n - 1)" by linarith
        have ca: "closest_after (Num t) (series_of xs) left right = Inr (int ?n - 1)"
          using True r0 by (simp add: closest_after_def length_series_of)
        have "closest_after (Num t) (series_of xs) left right = Inr (int (?n - 1))"
          by (simp only: ca nn)
        moreover have "\<forall>j<?n. ?n - 1 < ?n \<and> \<bar>?ts (?n - 1) - t\<bar> \<le> \<bar>?ts j - t\<bar>"
        proof (intro allI impI)
          fix j assume j: "j < ?n"
          have "?n - 1 < ?n" using j by (cases xs) auto
          then have "?ts (?n - 1) < t" using "1.prems"(5)[rule_format, of "?n - 1"] True by simp
          moreover have "?ts j \<le> ?ts (?n - 1)" using mono[of j "?n - 1"] j by simp
          ultimately show "?n - 1 < ?n \<and> \<bar>?ts (?n - 1) - t\<bar> \<le> \<bar>?ts j - t\<bar>" using j by auto
        qed
        ultimately show ?thesis using loop by metis
      next
        case ln: False
        have rl: "0 \<le> right" "right < int ?n" "0 \<le> left" "left < int ?n" "nat left = Suc (nat right)"
          using r0 ln lr "1.prems" by auto
        have below: "?ts (nat right) < t" using "1.prems"(5)[rule_format, of "nat right"] rl lr by simp
        have above: "t < ?ts (nat left)" using "1.prems"(6)[rule_format, of "nat left"] rl lr by simp
        have res: "closest_after (Num t) (series_of xs) left right =
            Inr (if \<bar>?ts (nat right) - t\<bar> < \<bar>?ts (nat left) - t\<bar> then right else left)"
          using rl r0 ln by (simp add: closest_after_def time_at_series_of length_series_of)
        have far: "\<And>j. j < ?n \<Longrightarrow> \<bar>?ts (nat right) - t\<bar> \<le> \<bar>?ts j - t\<bar> \<or> \<bar>?ts (nat left) - t\<bar> \<le> \<bar>?ts j - t\<bar>"
        proof -
          fix j assume j: "j < ?n"
          show "\<bar>?ts (nat right) - t\<bar> \<le> \<bar>?ts j - t\<bar> \<or> \<bar>?ts (nat left) - t\<bar> \<le> \<bar>?ts j - t\<bar>"
          proof (cases "j \<le> nat right")
            case True
            then have "?ts j \<le> ?ts (nat right)" using mono[of j "nat right"] rl by simp
            then show ?thesis using below by auto
          next
            case False
            then have "nat left \<le> j" using rl by simp
            then have "?ts (nat left) \<le> ?ts j" using mono[of "nat left" j] j by simp
            then show ?thesis using above by auto
          qed
        qed
        show ?thesis
        proof (cases "\<bar>?ts (nat right) - t\<bar> < \<bar>?ts (nat left) - t\<bar>")
          case True
          have "closest_loop (Num t) (series_of xs) left right = Inr (int (nat right))"
            using loop res True rl by simp
          moreover have "\<forall>j<?n. nat right < ?n \<and> \<bar>?ts (nat right) - t\<bar> \<le> \<bar>?ts j - t\<bar>"
            using far True rl by force
          ultimately show ?thesis by blast
        next
          case False
          have "closest_loop (Num t) (series_of xs) left right = Inr (int (nat left))"
            using loop res False rl by simp
          moreover have "\<forall>j<?n. nat left < ?n \<and> \<bar>?ts (nat left) - t\<bar> \<le> \<bar>?ts j - t\<bar>"
            using far False rl by force
          ultimately show ?thesis by blast
        qed
      qed
    qed
  qed
qed

text \<open>
  Claim C1. On a series whose sample times are ascending (non-decreasing), for every query
  time \<open>t\<close>, \<open>findClosestTimeIndex\<close> returns the index \<open>i\<close> of a sample, and no
  sample \<open>j\<close> is nearer to \<open>t\<close> in time than sample \<open>i\<close>. When a sample's time is
  \<open>t\<close> exactly, the time of the returned sample is \<open>t\<close> too, and with distinct times
  the returned index is that sample's.
\<close>

theorem findClosestTimeIndex_nearest:
  assumes "sorted (map fst xs)"
  shows "\<exists>i. findClosestTimeIndex (Num t) (Some (series_of xs)) = Inr (int i) \<and>
           (\<forall>j<length xs. i < length xs \<and> \<bar>fst (xs ! i) - t\<bar> \<le> \<bar>fst (xs ! j) - t\<bar> \<and>
              (fst (xs ! j) = t \<longrightarrow> fst (xs ! i) = t \<and> (distinct (map fst xs) \<longrightarrow> i = j)))"
proof -
  obtain i where i: "closest_loop (Num t) (series_of xs) 0 (int (length xs) - 1) = Inr (int i)"
    and near: "\<forall>j<length xs. i < length xs \<and> \<bar>fst (xs ! i) - t\<bar> \<le> \<bar>fst (xs ! j) - t\<bar>"
    using closest_loop_nearest[OF assms, of 0 "int (length xs) - 1" t] by auto
  have "fst (xs ! i) = t \<and> (distinct (map fst xs) \<longrightarrow> i = j)"
    if j: "j < length xs" and eq: "fst (xs ! j) = t" for j
  proof -
    have il: "i < length xs" and "\<bar>fst (xs ! i) - t\<bar> \<le> \<bar>fst (xs ! j) - t\<bar>"
      using near j by auto
    then have ti: "fst (xs ! i) = t" using eq by simp
    have "i = j" if d: "distinct (map fst xs)"
    proof -
      have "map fst xs ! i = map fst xs ! j" using ti eq il j by simp
      then show ?thesis using d il j nth_eq_iff_index_eq[of "map fst xs" i j] by simp
    qed
    then show ?thesis using ti by simp
  qed
  then show ?thesis
    using i near by (auto simp: findClosestTimeIndex_def length_series_of)
qed

text \<open>
  The series of the specification's scenario: the sample nearest to time 2.4 is sample 2,
  and time 3 is sample 3 exactly.
\<close>

theorem findClosestTimeIndex_nearest_witness:
  "sorted (map fst [(0, 1/10), (1, 2/10), (2, 9/10), (3, 95/100), (4::real, 2/10::real)]) \<and>
   findClosestTimeIndex (Num 2.4) (Some (series_of [(0, 1/10), (1, 2/10), (2, 9/10), (3, 95/100), (4, 2/10)])) = Inr 2 \<and>
   findClosestTimeIndex (Num 3) (Some (series_of [(0, 1/10), (1, 2/10), (2, 9/10), (3, 95/100), (4, 2/10)])) = Inr 3"
  using findClosestTimeIndex_nearest[of "[(0, 1/10), (1, 2/10), (2, 9/10), (3, 95/100), (4, 2/10)]" "24/10"]
  by (simp add: findClosestTimeIndex_def series_of_def sample_of_def closest_loop.simps
      closest_after_def time_at_def entry_def field_of_def jgt_def)

section \<open>Properties of findExactIndexFromTime and findNormalizedPositionFromTime\<close>

lemma entry_series_of:
  "0 \<le> i \<Longrightarrow> i < int (length xs) \<Longrightarrow> entry (series_of xs) i = sample_of (xs ! nat i)"
  by (simp add: entry_def series_of_def)

lemma valid_time_series_of:
  "0 \<le> i \<Longrightarrow> i < int (length xs) \<Longrightarrow> valid_time (series_of xs) i"
  by (simp add: valid_time_def entry_series_of sample_of_def field_of_def)

lemma nan_free_series_of: "nan_free (series_of xs)"
  by (auto simp: nan_free_def series_of_def sample_of_def split: if_splits)

lemma nan_free_field:
  assumes "nan_free es" and "entry es i = Some s"
  shows "field_of s k \<noteq> NaN"
proof -
  have "Some s \<in> set es"
    using assms(2) by (auto simp: entry_def split: if_splits) (metis nth_mem nat_less_iff)
  then have "map_of s k \<noteq> Some NaN" using assms(1) by (simp add: nan_free_def)
  then show ?thesis by (auto simp: field_of_def split: option.splits)
qed

lemma valid_time_Num:
  assumes "nan_free es" and "valid_time es i"
  shows "\<exists>a. time_at es i = Inr (Num a)"
proof -
  obtain s where s: "entry es i = Some s" and ty: "typeof_number (field_of s ''time'')"
    using assms(2) by (auto simp: valid_time_def split: option.splits)
  have "field_of s ''time'' \<noteq> NaN" using nan_free_field[OF assms(1) s] .
  then obtain a where "field_of s ''time'' = Num a"
    using ty by (cases "field_of s ''time''") auto
  then show ?thesis using s by (simp add: time_at_def)
qed

lemma find_valid_valid:
  assumes "find_valid es mid left right = Some v"
  shows "valid_time es v"
proof (cases "List.find (valid_time es) [mid..right]")
  case None
  then have "List.find (valid_time es) (rev [left..mid - 1]) = Some v"
    using assms by (simp add: find_valid_def)
  then show ?thesis using find_Some_in by fastforce
next
  case (Some i)
  then have "i = v" using assms by (simp add: find_valid_def)
  then show ?thesis using Some find_Some_in by fastforce
qed

lemma exact_after_Num:
  assumes "time_at es l = Inr (Num a)" and "time_at es r = Inr (Num b)"
  shows "exact_after (Num t) es l r =
     Inr (Num (if \<bar>a - t\<bar> < 1 / 1000 then of_int l
               else if \<bar>b - t\<bar> < 1 / 1000 then of_int r
               else if b - a \<le> 0 then of_int l
               else of_int l + (t - a) / (b - a)))"
  using assms by (simp add: exact_after_def Let_def)

lemma exact_loop_Num:
  assumes "nan_free es" and "valid_time es l" and "valid_time es r"
  shows "\<exists>x. exact_loop (Num t) es l r = Inr (Num x)"
  using assms
proof (induction "Num t" es l r rule: exact_loop.induct)
  case (1 es left right)
  define mid where "mid = (left + right) div 2"
  show ?case
  proof (cases "right - left > 1")
    case False
    obtain a b where "time_at es left = Inr (Num a)" "time_at es right = Inr (Num b)"
      using valid_time_Num "1.prems" by blast
    then show ?thesis
      using False exact_after_Num[of es left a right b t]
      by (subst exact_loop.simps) simp
  next
    case gap: True
    show ?thesis
    proof (cases "valid_time es mid")
      case False
      show ?thesis
      proof (cases "find_valid es mid left right")
        case None
        then show ?thesis using gap False
          by (subst exact_loop.simps) (simp add: mid_def)
      next
        case (Some v)
        have vv: "valid_time es v" using find_valid_valid[OF Some] .
        show ?thesis
        proof (cases "v \<ge> mid")
          case True
          have "\<exists>x. exact_loop (Num t) es v right = Inr (Num x)"
            using "1.hyps"(1)[OF gap False[unfolded mid_def] Some[unfolded mid_def] True[unfolded mid_def]]
              "1.prems" vv by simp
          then show ?thesis using gap False Some True
            by (subst exact_loop.simps) (simp add: mid_def)
        next
          case lower: False
          have "\<exists>x. exact_loop (Num t) es left v = Inr (Num x)"
            using "1.hyps"(2)[OF gap False[unfolded mid_def] Some[unfolded mid_def] lower[unfolded mid_def]]
              "1.prems" vv by simp
          then show ?thesis using gap False Some lower
            by (subst exact_loop.simps) (simp add: mid_def)
        qed
      qed
    next
      case True
      obtain a where a: "time_at es mid = Inr (Num a)"
        using valid_time_Num[OF "1.prems"(1) True] by blast
      have v: "\<not> \<not> valid_time es ((left + right) div 2)" using True by (simp add: mid_def)
      show ?thesis
      proof (cases "a < t")
        case lt: True
        have "\<exists>x. exact_loop (Num t) es mid right = Inr (Num x)"
          using "1.hyps"(3)[OF gap v a[unfolded mid_def]] lt "1.prems" True by (simp add: mid_def)
        then show ?thesis using gap True a lt
          by (subst exact_loop.simps) (simp add: mid_def)
      next
        case ge: False
        have "\<exists>x. exact_loop (Num t) es left mid = Inr (Num x)"
          using "1.hyps"(4)[OF gap v a[unfolded mid_def]] ge "1.prems" True by (simp add: mid_def)
        then show ?thesis using gap True a ge
          by (subst exact_loop.simps) (simp add: mid_def)
      qed
    qed
  qed
qed

lemma findExactIndexFromTime_Num:
  assumes "nan_free es"
  shows "\<exists>x. findExactIndexFromTime time (Some es) = Num x"
proof (cases time)
  case (Num t)
  show ?thesis
  proof (cases "length es \<noteq> 0 \<and> valid_time es 0 \<and> valid_time es (int (length es) - 1)")
    case True
    then obtain x where "exact_loop (Num t) es 0 (int (length es) - 1) = Inr (Num x)"
      using exact_loop_Num[OF assms, of 0 "int (length es) - 1" t] by blast
    then show ?thesis using True Num by (simp add: findExactIndexFromTime_def)
  next
    case False
    then show ?thesis using Num by (auto simp: findExactIndexFromTime_def)
  qed
qed (simp_all add: findExactIndexFromTime_def)

lemma at_js_entry: "at_js es v = Some s \<Longrightarrow> \<exists>i. entry es i = Some s"
  by (auto simp: at_js_def split: jsval.splits if_splits)

lemma energy_Num_or_Undefined:
  assumes "nan_free es" and "at_js es v = Some s"
  shows "(\<exists>q. field_of s ''energy'' = Num q) \<or> field_of s ''energy'' = Undefined"
proof -
  obtain i where "entry es i = Some s" using at_js_entry[OF assms(2)] by blast
  then have "field_of s ''energy'' \<noteq> NaN" using nan_free_field[OF assms(1)] by blast
  then show ?thesis by (cases "field_of s ''energy''") auto
qed

lemma positionChangeRate_Num:
  assumes "nan_free es"
  shows "\<exists>q. positionChangeRate es idx nextIdx = Num q \<and> 0 \<le> q"
proof (cases "at_js es nextIdx")
  case None
  then show ?thesis by (simp add: positionChangeRate_def)
next
  case sn: (Some sn)
  show ?thesis
  proof (cases "at_js es idx")
    case None
    then show ?thesis using sn by (simp add: positionChangeRate_def)
  next
    case si: (Some si)
    show ?thesis
      using energy_Num_or_Undefined[OF assms sn] energy_Num_or_Undefined[OF assms si] sn si
      by (auto simp: positionChangeRate_def)
  qed
qed

lemma findNormalizedPositionFromTime_range:
  assumes "nan_free es"
  shows "\<exists>p. findNormalizedPositionFromTime time (Some es) = Num p \<and> 0 \<le> p \<and> p \<le> 99 / 100"
proof -
  obtain x where x: "findExactIndexFromTime time (Some es) = Num x"
    using findExactIndexFromTime_Num[OF assms] by blast
  define m where "m = real (length es) - 1"
  obtain q where q: "positionChangeRate es (jfloor (Num x)) (jmin (jadd (jfloor (Num x)) (Num 1)) (Num m)) = Num q"
    and q0: "0 \<le> q"
    using positionChangeRate_Num[OF assms] by blast
  show ?thesis
  proof (cases "length es = 0 \<or> \<not> typeof_number time \<or> isNaN time \<or> x \<le> 0 \<or> m \<le> x")
    case True
    then have "findNormalizedPositionFromTime time (Some es) = Num 0 \<or>
        findNormalizedPositionFromTime time (Some es) = Num (99 / 100)"
      using x by (auto simp: findNormalizedPositionFromTime_def Let_def jge_def m_def)
    then show ?thesis by auto
  next
    case False
    then have pos: "0 < x" "x < m" by auto
    then have m0: "m \<noteq> 0" "0 < m" by auto
    have val: "findNormalizedPositionFromTime time (Some es) = Num (min (99 / 100) (x / m * (15 / 10 + q * 5)))"
      using False x q m0
      by (simp add: findNormalizedPositionFromTime_def Let_def jge_def m_def[symmetric])
    define y where "y = x / m * (15 / 10 + q * 5)"
    have "0 \<le> y" using pos m0 q0 by (simp add: y_def)
    then have "0 \<le> min (99 / 100) y \<and> min (99 / 100) y \<le> 99 / 100" by auto
    then show ?thesis using val unfolding y_def[symmetric] by blast
  qed
qed

lemma exact_loop_bracket:
  assumes "0 \<le> l" and "l \<le> r" and "r < int (length xs)"
  shows "\<exists>l' r'. exact_loop (Num t) (series_of xs) l r = exact_after (Num t) (series_of xs) l' r' \<and>
           l \<le> l' \<and> l' \<le> r' \<and> r' \<le> r \<and> r' \<le> l' + 1 \<and>
           (l' = l \<or> fst (xs ! nat l') < t) \<and> (r' = r \<or> t \<le> fst (xs ! nat r'))"
  using assms
proof (induction "Num t" "series_of xs" l r rule: exact_loop.induct)
  case (1 left right)
  define mid where "mid = (left + right) div 2"
  show ?case
  proof (cases "right - left > 1")
    case False
    have "exact_loop (Num t) (series_of xs) left right = exact_after (Num t) (series_of xs) left right"
      using False by (subst exact_loop.simps) simp
    then show ?thesis using False "1.prems" by force
  next
    case gap: True
    then have m: "left < mid" "mid < right" "0 \<le> mid" "mid < int (length xs)"
      using "1.prems" by (auto simp: mid_def)
    have v: "\<not> \<not> valid_time (series_of xs) ((left + right) div 2)"
      using valid_time_series_of[of mid xs] m by (simp add: mid_def)
    have tm: "time_at (series_of xs) mid = Inr (Num (fst (xs ! nat mid)))"
      using m by (simp add: time_at_series_of)
    show ?thesis
    proof (cases "fst (xs ! nat mid) < t")
      case lt: True
      have "\<exists>l' r'. exact_loop (Num t) (series_of xs) mid right = exact_after (Num t) (series_of xs) l' r' \<and>
           mid \<le> l' \<and> l' \<le> r' \<and> r' \<le> right \<and> r' \<le> l' + 1 \<and>
           (l' = mid \<or> fst (xs ! nat l') < t) \<and> (r' = right \<or> t \<le> fst (xs ! nat r'))"
        using "1.hyps"(3)[OF gap v tm[unfolded mid_def]] lt m "1.prems" by (simp add: mid_def)
      then obtain l' r' where
        "exact_loop (Num t) (series_of xs) mid right = exact_after (Num t) (series_of xs) l' r'"
        "mid \<le> l'" "l' \<le> r'" "r' \<le> right" "r' \<le> l' + 1"
        "l' = mid \<or> fst (xs ! nat l') < t" "r' = right \<or> t \<le> fst (xs ! nat r')"
        by blast
      moreover have "exact_loop (Num t) (series_of xs) left right = exact_loop (Num t) (series_of xs) mid right"
        using gap v tm lt by (subst exact_loop.simps) (simp add: mid_def)
      ultimately show ?thesis using lt m by (intro exI[of _ l'] exI[of _ r']) auto
    next
      case ge: False
      have "\<exists>l' r'. exact_loop (Num t) (series_of xs) left mid = exact_after (Num t) (series_of xs) l' r' \<and>
           left \<le> l' \<and> l' \<le> r' \<and> r' \<le> mid \<and> r' \<le> l' + 1 \<and>
           (l' = left \<or> fst (xs ! nat l') < t) \<and> (r' = mid \<or> t \<le> fst (xs ! nat r'))"
        using "1.hyps"(4)[OF gap v tm[unfolded mid_def]] ge m "1.prems" by (simp add: mid_def)
      then obtain l' r' where
        "exact_loop (Num t) (series_of xs) left mid = exact_after (Num t) (series_of xs) l' r'"
        "left \<le> l'" "l' \<le> r'" "r' \<le> mid" "r' \<le> l' + 1"
        "l' = left \<or> fst (xs ! nat l') < t" "r' = mid \<or> t \<le> fst (xs ! nat r')"
        by blast
      moreover have "exact_loop (Num t) (series_of xs) left right = exact_loop (Num t) (series_of xs) left mid"
        using gap v tm ge by (subst exact_loop.simps) (simp add: mid_def)
      ultimately show ?thesis using ge m by (intro exI[of _ l'] exI[of _ r']) auto
    qed
  qed
qed

text \<open>The value of findExactIndexFromTime on a well-formed series, through the final bracket.\<close>

lemma findExactIndexFromTime_bracket:
  assumes "xs \<noteq> []"
  shows "\<exists>l r. 0 \<le> l \<and> l \<le> r \<and> r < int (length xs) \<and> r \<le> l + 1 \<and>
           (l = 0 \<or> fst (xs ! nat l) < t) \<and> (r = int (length xs) - 1 \<or> t \<le> fst (xs ! nat r)) \<and>
           findExactIndexFromTime (Num t) (Some (series_of xs)) =
             Num (if \<bar>fst (xs ! nat l) - t\<bar> < 1 / 1000 then of_int l
                  else if \<bar>fst (xs ! nat r) - t\<bar> < 1 / 1000 then of_int r
                  else if fst (xs ! nat r) - fst (xs ! nat l) \<le> 0 then of_int l
                  else of_int l + (t - fst (xs ! nat l)) / (fst (xs ! nat r) - fst (xs ! nat l)))"
proof -
  let ?n = "int (length xs)"
  have n: "0 < ?n" using assms by simp
  obtain l r where lr: "exact_loop (Num t) (series_of xs) 0 (?n - 1) = exact_after (Num t) (series_of xs) l r"
    "0 \<le> l" "l \<le> r" "r \<le> ?n - 1" "r \<le> l + 1"
    "l = 0 \<or> fst (xs ! nat l) < t" "r = ?n - 1 \<or> t \<le> fst (xs ! nat r)"
    using exact_loop_bracket[of 0 "?n - 1" xs t] n by auto
  have tl: "time_at (series_of xs) l = Inr (Num (fst (xs ! nat l)))"
    and tr: "time_at (series_of xs) r = Inr (Num (fst (xs ! nat r)))"
    using lr by (simp_all add: time_at_series_of)
  have "findExactIndexFromTime (Num t) (Some (series_of xs)) =
      (case exact_after (Num t) (series_of xs) l r of Inl e \<Rightarrow> Num 0 | Inr v \<Rightarrow> v)"
    using n lr(1) valid_time_series_of[of 0 xs] valid_time_series_of[of "?n - 1" xs]
    by (simp add: findExactIndexFromTime_def length_series_of)
  then show ?thesis
    using lr exact_after_Num[OF tl tr, of t]
    by (intro exI[of _ l] exI[of _ r]) simp
qed

lemma closest_loop_before:
  assumes "\<forall>j<length xs. t < fst (xs ! j)" and "r < int (length xs)"
  shows "closest_loop (Num t) (series_of xs) 0 r = Inr 0"
  using assms
proof (induction "Num t" "series_of xs" "0::int" r rule: closest_loop.induct)
  case (1 right)
  show ?case
  proof (cases "0 \<le> right")
    case True
    define mid where "mid = (0 + right) div 2"
    have m: "0 \<le> mid" "mid \<le> right" "mid < int (length xs)"
      using True "1.prems" by (auto simp: mid_def)
    have tm: "time_at (series_of xs) mid = Inr (Num (fst (xs ! nat mid)))"
      using m by (simp add: time_at_series_of)
    have gt: "t < fst (xs ! nat mid)" using "1.prems"(1) m by simp
    then have ngt: "\<not> fst (xs ! nat mid) < t" by simp
    have nlt: "\<not> jlt (Num (fst (xs ! nat mid))) (Num t)" using ngt by simp
    have jg: "jgt (Num (fst (xs ! nat mid))) (Num t)" using gt by (simp add: jgt_def)
    have "closest_loop (Num t) (series_of xs) 0 (mid - 1) = Inr 0"
      using "1.hyps"(2)[OF True tm[unfolded mid_def] nlt[unfolded mid_def] jg[unfolded mid_def]]
        "1.prems" m by (simp add: mid_def)
    then show ?thesis
      using True tm nlt jg by (subst closest_loop.simps) (simp add: mid_def)
  next
    case False
    then show ?thesis
      by (subst closest_loop.simps) (simp add: closest_after_def)
  qed
qed

lemma closest_loop_after:
  assumes "\<forall>j<length xs. fst (xs ! j) < t" and "0 \<le> l" and "xs \<noteq> []"
  shows "closest_loop (Num t) (series_of xs) l (int (length xs) - 1) = Inr (int (length xs) - 1)"
  using assms
proof (induction "Num t" "series_of xs" l "int (length xs) - 1" rule: closest_loop.induct)
  case (1 left)
  let ?r = "int (length xs) - 1"
  show ?case
  proof (cases "left \<le> ?r")
    case True
    define mid where "mid = (left + ?r) div 2"
    have m: "left \<le> mid" "0 \<le> mid" "mid \<le> ?r" "mid < int (length xs)"
      using True "1.prems" by (auto simp: mid_def)
    have tm: "time_at (series_of xs) mid = Inr (Num (fst (xs ! nat mid)))"
      using m by (simp add: time_at_series_of)
    have lt: "jlt (Num (fst (xs ! nat mid))) (Num t)" using "1.prems"(1) m by simp
    have "closest_loop (Num t) (series_of xs) (mid + 1) ?r = Inr ?r"
      using "1.hyps"(1)[OF True tm[unfolded mid_def] lt[unfolded mid_def]] "1.prems" m
      by (simp add: mid_def)
    then show ?thesis
      using True tm lt by (subst closest_loop.simps) (simp add: mid_def)
  next
    case False
    then show ?thesis using "1.prems"
      by (subst closest_loop.simps) (simp add: closest_after_def length_series_of)
  qed
qed

lemma findExactIndexFromTime_before:
  assumes "sorted (map fst xs)" and "xs \<noteq> []" and "t < fst (hd xs)"
  shows "\<exists>x. findExactIndexFromTime (Num t) (Some (series_of xs)) = Num x \<and> x \<le> 0"
proof -
  let ?ts = "\<lambda>j. fst (xs ! j)"
  have mono: "\<And>a b. a \<le> b \<Longrightarrow> b < length xs \<Longrightarrow> ?ts a \<le> ?ts b"
    using assms(1) by (simp add: sorted_iff_nth_mono)
  have t0: "t < ?ts 0" using assms(2,3) by (simp add: hd_conv_nth)
  obtain l r where lr: "0 \<le> l" "l \<le> r" "r < int (length xs)"
    "l = 0 \<or> ?ts (nat l) < t"
    and val: "findExactIndexFromTime (Num t) (Some (series_of xs)) =
             Num (if \<bar>?ts (nat l) - t\<bar> < 1 / 1000 then of_int l
                  else if \<bar>?ts (nat r) - t\<bar> < 1 / 1000 then of_int r
                  else if ?ts (nat r) - ?ts (nat l) \<le> 0 then of_int l
                  else of_int l + (t - ?ts (nat l)) / (?ts (nat r) - ?ts (nat l)))"
    using findExactIndexFromTime_bracket[OF assms(2), of t] by blast
  have "?ts 0 \<le> ?ts (nat l)" using mono[of 0 "nat l"] lr by simp
  then have l0: "l = 0" using lr(4) t0 by auto
  have ab: "?ts 0 \<le> ?ts (nat r)" using mono[of 0 "nat r"] lr by simp
  have r0: "0 \<le> r" using lr l0 by simp
  define a where "a = ?ts 0"
  define b where "b = ?ts (nat r)"
  have val0: "findExactIndexFromTime (Num t) (Some (series_of xs)) =
             Num (if \<bar>a - t\<bar> < 1 / 1000 then 0
                  else if \<bar>b - t\<bar> < 1 / 1000 then of_int r
                  else if b - a \<le> 0 then 0
                  else (t - a) / (b - a))"
    using val l0 by (simp add: a_def b_def)
  have ta: "t < a" and "a \<le> b" using t0 ab by (simp_all add: a_def b_def)
  then have far: "\<not> \<bar>a - t\<bar> < 1 / 1000 \<Longrightarrow> \<not> \<bar>b - t\<bar> < 1 / 1000" by simp
  show ?thesis
  proof (cases "\<bar>a - t\<bar> < 1 / 1000")
    case True
    then have "findExactIndexFromTime (Num t) (Some (series_of xs)) = Num 0"
      by (simp only: val0 if_True)
    then show ?thesis by simp
  next
    case na: False
    show ?thesis
    proof (cases "b - a \<le> 0")
      case True
      then have "findExactIndexFromTime (Num t) (Some (series_of xs)) = Num 0"
        using na far[OF na] by (simp only: val0 if_True if_False)
      then show ?thesis by simp
    next
      case False
      then have "findExactIndexFromTime (Num t) (Some (series_of xs)) = Num ((t - a) / (b - a))"
        using na far[OF na] by (simp only: val0 if_True if_False)
      moreover have "(t - a) / (b - a) \<le> 0"
        using ta False by (simp add: divide_le_0_iff)
      ultimately show ?thesis by simp
    qed
  qed
qed




text \<open>
  Claim C4. On a non-empty series with ascending times: for a query time before the first
  sample's time, \<open>findClosestTimeIndex\<close> returns index 0 and
  \<open>findNormalizedPositionFromTime\<close> returns 0; for a query time after the last sample's
  time, \<open>findClosestTimeIndex\<close> returns the last index and the normalized position is
  at most 0.99, so never 1.
\<close>

theorem resolveIndex_outside_samples:
  assumes "sorted (map fst xs)" and "xs \<noteq> []"
  shows "(t < fst (hd xs) \<longrightarrow>
            findClosestTimeIndex (Num t) (Some (series_of xs)) = Inr 0 \<and>
            findNormalizedPositionFromTime (Num t) (Some (series_of xs)) = Num 0) \<and>
         (fst (last xs) < t \<longrightarrow>
            findClosestTimeIndex (Num t) (Some (series_of xs)) = Inr (int (length xs) - 1) \<and>
            (\<exists>p. findNormalizedPositionFromTime (Num t) (Some (series_of xs)) = Num p \<and>
                 p \<le> 99 / 100 \<and> p \<noteq> 1))"
proof -
  let ?ts = "\<lambda>j. fst (xs ! j)"
  have mono: "\<And>a b. a \<le> b \<Longrightarrow> b < length xs \<Longrightarrow> ?ts a \<le> ?ts b"
    using assms(1) by (simp add: sorted_iff_nth_mono)
  have before: "findClosestTimeIndex (Num t) (Some (series_of xs)) = Inr 0 \<and>
            findNormalizedPositionFromTime (Num t) (Some (series_of xs)) = Num 0"
    if t0: "t < fst (hd xs)"
  proof -
    have "\<forall>j<length xs. t < ?ts j"
    proof (intro allI impI)
      fix j assume "j < length xs"
      then have "?ts 0 \<le> ?ts j" using mono[of 0 j] by simp
      then show "t < ?ts j" using t0 assms(2) by (simp add: hd_conv_nth)
    qed
    then have "closest_loop (Num t) (series_of xs) 0 (int (length xs) - 1) = Inr 0"
      using closest_loop_before[of xs t "int (length xs) - 1"] by simp
    then have c: "findClosestTimeIndex (Num t) (Some (series_of xs)) = Inr 0"
      by (simp add: findClosestTimeIndex_def length_series_of)
    obtain x where "findExactIndexFromTime (Num t) (Some (series_of xs)) = Num x" "x \<le> 0"
      using findExactIndexFromTime_before[OF assms t0] by blast
    then have "findNormalizedPositionFromTime (Num t) (Some (series_of xs)) = Num 0"
      by (simp add: findNormalizedPositionFromTime_def Let_def)
    then show ?thesis using c by simp
  qed
  have after: "findClosestTimeIndex (Num t) (Some (series_of xs)) = Inr (int (length xs) - 1) \<and>
            (\<exists>p. findNormalizedPositionFromTime (Num t) (Some (series_of xs)) = Num p \<and>
                 p \<le> 99 / 100 \<and> p \<noteq> 1)"
    if tn: "fst (last xs) < t"
  proof -
    have "\<forall>j<length xs. ?ts j < t"
    proof (intro allI impI)
      fix j assume "j < length xs"
      then have "?ts j \<le> ?ts (length xs - 1)" using mono[of j "length xs - 1"] by simp
      then show "?ts j < t" using tn assms(2) by (simp add: last_conv_nth)
    qed
    then have "closest_loop (Num t) (series_of xs) 0 (int (length xs) - 1) = Inr (int (length xs) - 1)"
      using closest_loop_after[of xs t 0] assms(2) by simp
    then have c: "findClosestTimeIndex (Num t) (Some (series_of xs)) = Inr (int (length xs) - 1)"
      by (simp add: findClosestTimeIndex_def length_series_of)
    obtain p where "findNormalizedPositionFromTime (Num t) (Some (series_of xs)) = Num p"
      "0 \<le> p" "p \<le> 99 / 100"
      using findNormalizedPositionFromTime_range[OF nan_free_series_of] by blast
    then show ?thesis using c by auto
  qed
  show ?thesis using before after by blast
qed

text \<open>Samples at times 1, 2 and 3, queried at time 0 and at time 5.\<close>

theorem resolveIndex_outside_samples_witness:
  "sorted (map fst [(1, 1/10), (2, 2/10), (3::real, 9/10::real)]) \<and>
   [(1, 1/10), (2, 2/10), (3::real, 9/10::real)] \<noteq> [] \<and>
   0 < fst (hd [(1, 1/10), (2, 2/10), (3::real, 9/10::real)]) \<and>
   findClosestTimeIndex (Num 0) (Some (series_of [(1, 1/10), (2, 2/10), (3, 9/10)])) = Inr 0 \<and>
   findNormalizedPositionFromTime (Num 0) (Some (series_of [(1, 1/10), (2, 2/10), (3, 9/10)])) = Num 0 \<and>
   fst (last [(1, 1/10), (2, 2/10), (3::real, 9/10::real)]) < 5 \<and>
   findClosestTimeIndex (Num 5) (Some (series_of [(1, 1/10), (2, 2/10), (3, 9/10)])) = Inr 2 \<and>
   findNormalizedPositionFromTime (Num 5) (Some (series_of [(1, 1/10), (2, 2/10), (3, 9/10)])) = Num (99 / 100)"
  using resolveIndex_outside_samples[of "[(1, 1/10), (2, 2/10), (3, 9/10)]" 0]
    resolveIndex_outside_samples[of "[(1, 1/10), (2, 2/10), (3, 9/10)]" 5]
  by (simp add: utils_eval)

section \<open>Invalid samples in findClosestTimeIndex\<close>

text \<open>
  Claim C5 (the code departs from it). \<open>findClosestTimeIndex\<close> never tests a sample's
  validity. In the first series below the middle sample's time is not a number (the field
  is \<open>undefined\<close>); it compares false both ways with the query time, so the loop returns
  its index, 1, and that sample is invalid. The same happens when the time is \<open>NaN\<close>, as
  \<open>parseFloat\<close> gives for a malformed row. When the middle entry is missing altogether,
  reading its time raises a TypeError.
\<close>

theorem findClosestTimeIndex_returns_invalid_sample:
  "findClosestTimeIndex (Num (1 / 2))
     (Some [Some [(''time'', Num 0), (''energy'', Num (1 / 10))],
            Some [(''time'', Undefined), (''energy'', Num (1 / 2))],
            Some [(''time'', Num 2), (''energy'', Num (9 / 10))]]) = Inr 1 \<and>
   \<not> valid_time
     [Some [(''time'', Num 0), (''energy'', Num (1 / 10))],
      Some [(''time'', Undefined), (''energy'', Num (1 / 2))],
      Some [(''time'', Num 2), (''energy'', Num (9 / 10))]] 1 \<and>
   findClosestTimeIndex (Num (1 / 2))
     (Some [Some [(''time'', Num 0), (''energy'', Num (1 / 10))],
            Some [(''time'', NaN), (''energy'', Num (1 / 2))],
            Some [(''time'', Num 2), (''energy'', Num (9 / 10))]]) = Inr 1 \<and>
   findClosestTimeIndex (Num (1 / 2))
     (Some [Some [(''time'', Num 0), (''energy'', Num (1 / 10))],
            None,
            Some [(''time'', Num 2), (''energy'', Num (9 / 10))]]) = Inl TypeError"
  by (simp add: utils_eval)

section \<open>Properties of the zone state machine\<close>

text \<open>The defining equations that evaluate the zone functions.\<close>

lemmas zone_eval = uiNewZone_def getZoneNameFromValue_def zonePalette_def zoneNames_def
  zoneCount_def updateUIIndicators_def energyZoneIndex_def zones_of_def legacyZoneName_def
  legacyEnergyZone_def audioNewZone_def updatePositionFromTime_def initial_state_def

lemma updateUIIndicators_candidate:
  assumes "updateUIIndicators el zd ed i st = Inr (st', evs)" and "entry ed i = Some s"
  shows "\<exists>z. uiNewZone zd i (field_of s ''energy'') = Inr z \<and>
           (if Some z = currentZone st then evs = [] \<and> st' = st
            else evs = [\<lparr>event_type = ''zoneChange'', detail_zone = Some z,
                          detail_energy = field_of s ''energy''\<rparr>] \<and>
                 st' = st\<lparr>currentZone := Some z\<rparr>)"
  using assms
  by (auto simp: updateUIIndicators_def Let_def split: if_splits sum.splits)

lemma updateUIIndicators_no_sample:
  assumes "updateUIIndicators el zd ed i st = Inr (st', evs)" and "entry ed i = None"
  shows "evs = [] \<and> st' = st"
  using assms by (simp add: updateUIIndicators_def)

lemma updatePositionFromTime_candidate:
  assumes "updatePositionFromTime (Some t) (Some es) zd st = Inr (st', evs)"
    and "findClosestTimeIndex t (Some es) = Inr k" and "entry es k = Some s"
  shows "if k = currentIndex st \<or> audioNewZone zd k (field_of s ''energy'') = currentZone st
         then evs = [] \<and> st' = st\<lparr>currentIndex := k\<rparr>
         else evs = [\<lparr>event_type = ''zoneChange'',
                       detail_zone = audioNewZone zd k (field_of s ''energy''),
                       detail_energy = field_of s ''energy''\<rparr>] \<and>
              st' = st\<lparr>currentIndex := k, currentZone := audioNewZone zd k (field_of s ''energy'')\<rparr>"
  using assms
  by (auto simp: updatePositionFromTime_def Let_def split: if_splits)

lemma updateUIIndicators_step:
  assumes "updateUIIndicators el zd ed i st = Inr (st', evs)"
  shows "(evs = [] \<and> currentZone st' = currentZone st) \<or>
         (\<exists>ev. evs = [ev] \<and> event_type ev = ''zoneChange'' \<and>
               detail_zone ev \<noteq> currentZone st \<and> currentZone st' = detail_zone ev)"
  using assms
  by (auto simp: updateUIIndicators_def Let_def split: option.splits if_splits sum.splits)

lemma updatePositionFromTime_step:
  assumes "updatePositionFromTime audioTime ed zd st = Inr (st', evs)"
  shows "(evs = [] \<and> currentZone st' = currentZone st) \<or>
         (\<exists>ev. evs = [ev] \<and> event_type ev = ''zoneChange'' \<and>
               detail_zone ev \<noteq> currentZone st \<and> currentZone st' = detail_zone ev)"
  using assms
  by (auto simp: updatePositionFromTime_def Let_def split: option.splits if_splits sum.splits)

lemma zoneRun_changes:
  assumes "\<And>s x s' evs. step s x = Inr (s', evs) \<Longrightarrow>
             (evs = [] \<and> currentZone s' = currentZone s) \<or>
             (\<exists>ev. evs = [ev] \<and> event_type ev = ''zoneChange'' \<and>
                   detail_zone ev \<noteq> currentZone s \<and> currentZone s' = detail_zone ev)"
  shows "distinct_adj (currentZone st # map detail_zone (snd (zoneRun step st xs))) \<and>
         currentZone (fst (zoneRun step st xs)) = last (currentZone st # map detail_zone (snd (zoneRun step st xs))) \<and>
         (\<forall>ev \<in> set (snd (zoneRun step st xs)). event_type ev = ''zoneChange'')"
proof (induction xs arbitrary: st)
  case Nil
  show ?case by simp
next
  case (Cons x xs)
  show ?case
  proof (cases "step st x")
    case (Inl err)
    then show ?thesis using Cons.IH[of st] by simp
  next
    case (Inr p)
    obtain s1 evs where p: "p = (s1, evs)" by (cases p)
    obtain s2 evs2 where r: "zoneRun step s1 xs = (s2, evs2)" by (cases "zoneRun step s1 xs")
    have run: "zoneRun step st (x # xs) = (s2, evs @ evs2)"
      using Inr p r by simp
    have ih: "distinct_adj (currentZone s1 # map detail_zone evs2)"
      "currentZone s2 = last (currentZone s1 # map detail_zone evs2)"
      "\<forall>ev \<in> set evs2. event_type ev = ''zoneChange''"
      using Cons.IH[of s1] r by simp_all
    from assms[of st x s1 evs] Inr p
    consider "evs = []" "currentZone s1 = currentZone st"
      | ev where "evs = [ev]" "event_type ev = ''zoneChange''"
          "detail_zone ev \<noteq> currentZone st" "currentZone s1 = detail_zone ev"
      by auto
    then show ?thesis
    proof cases
      case 1
      then show ?thesis using run ih by simp
    next
      case 2
      then show ?thesis using run ih by auto
    qed
  qed
qed

lemma scenario_ui:
  "snd (zoneRun (\<lambda>s i. updateUIIndicators el
           (Some (zones_of [(0, 0), (1, 0), (2, 0), (3, 1), (4, 1), (5, 2), (6, 2), (7, 2)]))
           (series_of [(0, e0), (1, e1), (2, e2), (3, e3), (4, e4), (5, e5), (6, e6), (7, e7)]) i s)
         initial_state [0, 1, 2, 3, 4, 5, 6, 7]) =
     [\<lparr>event_type = ''zoneChange'', detail_zone = Some ''medium'', detail_energy = Num e3\<rparr>,
      \<lparr>event_type = ''zoneChange'', detail_zone = Some ''high'', detail_energy = Num e5\<rparr>]"
  by (simp add: zone_eval series_of_def sample_of_def entry_def field_of_def)

lemma scenario_index:
  "findClosestTimeIndex (Num 0) (Some (series_of [(0, e0), (1, e1), (2, e2), (3, e3), (4, e4), (5, e5), (6, e6), (7, e7)])) = Inr 0"
  "findClosestTimeIndex (Num 1) (Some (series_of [(0, e0), (1, e1), (2, e2), (3, e3), (4, e4), (5, e5), (6, e6), (7, e7)])) = Inr 1"
  "findClosestTimeIndex (Num 2) (Some (series_of [(0, e0), (1, e1), (2, e2), (3, e3), (4, e4), (5, e5), (6, e6), (7, e7)])) = Inr 2"
  "findClosestTimeIndex (Num 3) (Some (series_of [(0, e0), (1, e1), (2, e2), (3, e3), (4, e4), (5, e5), (6, e6), (7, e7)])) = Inr 3"
  "findClosestTimeIndex (Num 4) (Some (series_of [(0, e0), (1, e1), (2, e2), (3, e3), (4, e4), (5, e5), (6, e6), (7, e7)])) = Inr 4"
  "findClosestTimeIndex (Num 5) (Some (series_of [(0, e0), (1, e1), (2, e2), (3, e3), (4, e4), (5, e5), (6, e6), (7, e7)])) = Inr 5"
  "findClosestTimeIndex (Num 6) (Some (series_of [(0, e0), (1, e1), (2, e2), (3, e3), (4, e4), (5, e5), (6, e6), (7, e7)])) = Inr 6"
  "findClosestTimeIndex (Num 7) (Some (series_of [(0, e0), (1, e1), (2, e2), (3, e3), (4, e4), (5, e5), (6, e6), (7, e7)])) = Inr 7"
  by (simp_all add: findClosestTimeIndex_def series_of_def sample_of_def closest_loop.simps
      closest_after_def time_at_def entry_def field_of_def jgt_def)

lemma scenario_audio:
  "snd (zoneRun (\<lambda>s t. updatePositionFromTime (Some t)
           (Some (series_of [(0, e0), (1, e1), (2, e2), (3, e3), (4, e4), (5, e5), (6, e6), (7, e7)]))
           (Some (zones_of [(0, 0), (1, 0), (2, 0), (3, 1), (4, 1), (5, 2), (6, 2), (7, 2)])) s)
         initial_state [Num 0, Num 1, Num 2, Num 3, Num 4, Num 5, Num 6, Num 7]) =
     [\<lparr>event_type = ''zoneChange'', detail_zone = Some ''medium'', detail_energy = Num e3\<rparr>,
      \<lparr>event_type = ''zoneChange'', detail_zone = Some ''high'', detail_energy = Num e5\<rparr>]"
proof -
  define E where "E = series_of [(0, e0), (1, e1), (2, e2), (3, e3), (4, e4), (5, e5), (6, e6), (7, e7)]"
  define Z where "Z = zones_of [(0, 0), (1, 0), (2, 0), (3, 1), (4, 1), (5, 2), (6, 2), (7, 2)]"
  have idx: "findClosestTimeIndex (Num 0) (Some E) = Inr 0" "findClosestTimeIndex (Num 1) (Some E) = Inr 1"
    "findClosestTimeIndex (Num 2) (Some E) = Inr 2" "findClosestTimeIndex (Num 3) (Some E) = Inr 3"
    "findClosestTimeIndex (Num 4) (Some E) = Inr 4" "findClosestTimeIndex (Num 5) (Some E) = Inr 5"
    "findClosestTimeIndex (Num 6) (Some E) = Inr 6" "findClosestTimeIndex (Num 7) (Some E) = Inr 7"
    unfolding E_def by (rule scenario_index)+
  have ent: "entry E 1 = sample_of (1, e1)" "entry E 2 = sample_of (2, e2)" "entry E 3 = sample_of (3, e3)"
    "entry E 4 = sample_of (4, e4)" "entry E 5 = sample_of (5, e5)" "entry E 6 = sample_of (6, e6)"
    "entry E 7 = sample_of (7, e7)"
    by (simp_all add: E_def entry_def series_of_def)
  have zon: "entry Z 1 = Some [(''time'', Num 1), (''zone'', Num 0)]"
    "entry Z 2 = Some [(''time'', Num 2), (''zone'', Num 0)]"
    "entry Z 3 = Some [(''time'', Num 3), (''zone'', Num 1)]"
    "entry Z 4 = Some [(''time'', Num 4), (''zone'', Num 1)]"
    "entry Z 5 = Some [(''time'', Num 5), (''zone'', Num 2)]"
    "entry Z 6 = Some [(''time'', Num 6), (''zone'', Num 2)]"
    "entry Z 7 = Some [(''time'', Num 7), (''zone'', Num 2)]"
    by (simp_all add: Z_def entry_def zones_of_def)
  have "snd (zoneRun (\<lambda>s t. updatePositionFromTime (Some t) (Some E) (Some Z) s)
         initial_state [Num 0, Num 1, Num 2, Num 3, Num 4, Num 5, Num 6, Num 7]) =
     [\<lparr>event_type = ''zoneChange'', detail_zone = Some ''medium'', detail_energy = Num e3\<rparr>,
      \<lparr>event_type = ''zoneChange'', detail_zone = Some ''high'', detail_energy = Num e5\<rparr>]"
    by (simp add: updatePositionFromTime_def idx ent zon sample_of_def field_of_def
        legacyZoneName_def audioNewZone_def initial_state_def Let_def)
  then show ?thesis by (simp only: E_def Z_def)
qed

text \<open>
  Claim C3. The zone state machine dispatches a transition event only when the candidate
  zone differs from the stored current zone. For \<open>updateUIIndicators\<close> at an index with
  a sample, and for \<open>updatePositionFromTime\<close> at a time whose resolved index has a
  sample: when the candidate zone is the stored one (or, for \<open>updatePositionFromTime\<close>,
  the index has not changed) no event is dispatched and the zone is kept; otherwise exactly
  one event of type \<open>zoneChange\<close> is dispatched, carrying the candidate zone and the
  sample's energy, and the candidate becomes the stored zone. Over any sequence of inputs,
  from any state, no two consecutive events carry the same zone and the first differs from
  the zone stored at the start. In the scenario, the zone series \<open>[0,0,0,1,1,2,2,2]\<close>
  fed in order from the initial state (zone \<open>low\<close>, zone 0) gives exactly two events,
  to \<open>medium\<close> (zone 1) with the energy of sample 3, then to \<open>high\<close> (zone 2) with the
  energy of sample 5, whatever the energies are.
\<close>

theorem zone_events_only_on_change:
  "(updateUIIndicators el zd ed i st = Inr (st', evs) \<and> entry ed i = Some s \<longrightarrow>
      (\<exists>z. uiNewZone zd i (field_of s ''energy'') = Inr z \<and>
         (if Some z = currentZone st then evs = [] \<and> st' = st
          else evs = [\<lparr>event_type = ''zoneChange'', detail_zone = Some z,
                        detail_energy = field_of s ''energy''\<rparr>] \<and>
               st' = st\<lparr>currentZone := Some z\<rparr>))) \<and>
   (updatePositionFromTime (Some t) (Some es) wzd st = Inr (st', evs) \<and>
    findClosestTimeIndex t (Some es) = Inr k \<and> entry es k = Some s \<longrightarrow>
      (if k = currentIndex st \<or> audioNewZone wzd k (field_of s ''energy'') = currentZone st
       then evs = [] \<and> st' = st\<lparr>currentIndex := k\<rparr>
       else evs = [\<lparr>event_type = ''zoneChange'',
                     detail_zone = audioNewZone wzd k (field_of s ''energy''),
                     detail_energy = field_of s ''energy''\<rparr>] \<and>
            st' = st\<lparr>currentIndex := k, currentZone := audioNewZone wzd k (field_of s ''energy'')\<rparr>)) \<and>
   distinct_adj (currentZone st #
      map detail_zone (snd (zoneRun (\<lambda>s i. updateUIIndicators el zd ed i s) st indices))) \<and>
   distinct_adj (currentZone st #
      map detail_zone (snd (zoneRun (\<lambda>s t. updatePositionFromTime t wed wzd s) st audioTimes))) \<and>
   snd (zoneRun (\<lambda>s i. updateUIIndicators el
           (Some (zones_of [(0, 0), (1, 0), (2, 0), (3, 1), (4, 1), (5, 2), (6, 2), (7, 2)]))
           (series_of [(0, e0), (1, e1), (2, e2), (3, e3), (4, e4), (5, e5), (6, e6), (7, e7)]) i s)
         initial_state [0, 1, 2, 3, 4, 5, 6, 7]) =
     [\<lparr>event_type = ''zoneChange'', detail_zone = Some ''medium'', detail_energy = Num e3\<rparr>,
      \<lparr>event_type = ''zoneChange'', detail_zone = Some ''high'', detail_energy = Num e5\<rparr>] \<and>
   snd (zoneRun (\<lambda>s t. updatePositionFromTime (Some t)
           (Some (series_of [(0, e0), (1, e1), (2, e2), (3, e3), (4, e4), (5, e5), (6, e6), (7, e7)]))
           (Some (zones_of [(0, 0), (1, 0), (2, 0), (3, 1), (4, 1), (5, 2), (6, 2), (7, 2)])) s)
         initial_state [Num 0, Num 1, Num 2, Num 3, Num 4, Num 5, Num 6, Num 7]) =
     [\<lparr>event_type = ''zoneChange'', detail_zone = Some ''medium'', detail_energy = Num e3\<rparr>,
      \<lparr>event_type = ''zoneChange'', detail_zone = Some ''high'', detail_energy = Num e5\<rparr>]"
proof (intro conjI impI)
  assume "updateUIIndicators el zd ed i st = Inr (st', evs) \<and> entry ed i = Some s"
  then show "\<exists>z. uiNewZone zd i (field_of s ''energy'') = Inr z \<and>
         (if Some z = currentZone st then evs = [] \<and> st' = st
          else evs = [\<lparr>event_type = ''zoneChange'', detail_zone = Some z,
                        detail_energy = field_of s ''energy''\<rparr>] \<and>
               st' = st\<lparr>currentZone := Some z\<rparr>)"
    using updateUIIndicators_candidate by blast
next
  assume "updatePositionFromTime (Some t) (Some es) wzd st = Inr (st', evs) \<and>
    findClosestTimeIndex t (Some es) = Inr k \<and> entry es k = Some s"
  then show "if k = currentIndex st \<or> audioNewZone wzd k (field_of s ''energy'') = currentZone st
       then evs = [] \<and> st' = st\<lparr>currentIndex := k\<rparr>
       else evs = [\<lparr>event_type = ''zoneChange'',
                     detail_zone = audioNewZone wzd k (field_of s ''energy''),
                     detail_energy = field_of s ''energy''\<rparr>] \<and>
            st' = st\<lparr>currentIndex := k, currentZone := audioNewZone wzd k (field_of s ''energy'')\<rparr>"
    using updatePositionFromTime_candidate by blast
next
  show "distinct_adj (currentZone st #
      map detail_zone (snd (zoneRun (\<lambda>s i. updateUIIndicators el zd ed i s) st indices)))"
    using zoneRun_changes[of "\<lambda>s i. updateUIIndicators el zd ed i s" st indices]
      updateUIIndicators_step by blast
next
  show "distinct_adj (currentZone st #
      map detail_zone (snd (zoneRun (\<lambda>s t. updatePositionFromTime t wed wzd s) st audioTimes)))"
    using zoneRun_changes[of "\<lambda>s t. updatePositionFromTime t wed wzd s" st audioTimes]
      updatePositionFromTime_step by blast
qed (rule scenario_ui scenario_audio)+

text \<open>
  From the initial state, index 3 (zone 1) dispatches the event to \<open>medium\<close>, and index
  2 (zone 0, the stored zone) dispatches nothing.
\<close>

theorem zone_events_only_on_change_witness:
  "updateUIIndicators True
     (Some (zones_of [(0, 0), (1, 0), (2, 0), (3, 1), (4, 1), (5, 2), (6, 2), (7, 2)]))
     (series_of [(0, 1/10), (1, 1/10), (2, 2/10), (3, 5/10), (4, 5/10), (5, 9/10), (6, 9/10), (7, 8/10)])
     3 initial_state =
     Inr (initial_state\<lparr>currentZone := Some ''medium''\<rparr>,
          [\<lparr>event_type = ''zoneChange'', detail_zone = Some ''medium'', detail_energy = Num (5/10)\<rparr>]) \<and>
   entry (series_of [(0, 1/10), (1, 1/10), (2, 2/10), (3, 5/10), (4, 5/10), (5, 9/10), (6, 9/10), (7, 8/10)]) 3
     = Some [(''time'', Num 3), (''energy'', Num (5/10))] \<and>
   uiNewZone (Some (zones_of [(0, 0), (1, 0), (2, 0), (3, 1), (4, 1), (5, 2), (6, 2), (7, 2)])) 3 (Num (5/10))
     = Inr ''medium'' \<and>
   currentZone initial_state = Some ''low'' \<and>
   updateUIIndicators True
     (Some (zones_of [(0, 0), (1, 0), (2, 0), (3, 1), (4, 1), (5, 2), (6, 2), (7, 2)]))
     (series_of [(0, 1/10), (1, 1/10), (2, 2/10), (3, 5/10), (4, 5/10), (5, 9/10), (6, 9/10), (7, 8/10)])
     2 initial_state = Inr (initial_state, [])"
  using zone_events_only_on_change[where el = True
      and zd = "Some (zones_of [(0, 0), (1, 0), (2, 0), (3, 1), (4, 1), (5, 2), (6, 2), (7, 2)])"
      and ed = "series_of [(0, 1/10), (1, 1/10), (2, 2/10), (3, 5/10), (4, 5/10), (5, 9/10), (6, 9/10), (7, 8/10)]"
      and i = 3 and st = initial_state
      and st' = "initial_state\<lparr>currentZone := Some ''medium''\<rparr>"
      and evs = "[\<lparr>event_type = ''zoneChange'', detail_zone = Some ''medium'', detail_energy = Num (5/10)\<rparr>]"
      and s = "[(''time'', Num 3), (''energy'', Num (5/10))]"]
  by (simp add: zone_eval series_of_def sample_of_def entry_def field_of_def)

text \<open>
  Claim C10. Every event the zone state machine dispatches, through
  \<open>updateUIIndicators\<close> or \<open>updatePositionFromTime\<close>, over any sequence of inputs and
  from any state, has the type \<open>zoneChange\<close>, and dispatching it invokes none of the
  listeners registered on \<open>document\<close>: \<open>handleZoneChange\<close> is registered for
  \<open>zonechange\<close>, a different string.
\<close>

theorem zone_events_never_reach_handler:
  "(\<forall>ev \<in> set (snd (zoneRun (\<lambda>s i. updateUIIndicators el zd ed i s) st indices)).
       event_type ev = ''zoneChange'' \<and> dispatchEvent documentListeners ev = []) \<and>
   (\<forall>ev \<in> set (snd (zoneRun (\<lambda>s t. updatePositionFromTime t wed wzd s) st audioTimes)).
       event_type ev = ''zoneChange'' \<and> dispatchEvent documentListeners ev = [])"
proof -
  have none: "dispatchEvent documentListeners ev = []" if "event_type ev = ''zoneChange''" for ev
    using that by (simp add: dispatchEvent_def documentListeners_def)
  have "\<forall>ev \<in> set (snd (zoneRun (\<lambda>s i. updateUIIndicators el zd ed i s) st indices)).
       event_type ev = ''zoneChange''"
    using zoneRun_changes[of "\<lambda>s i. updateUIIndicators el zd ed i s" st indices]
      updateUIIndicators_step by blast
  moreover have "\<forall>ev \<in> set (snd (zoneRun (\<lambda>s t. updatePositionFromTime t wed wzd s) st audioTimes)).
       event_type ev = ''zoneChange''"
    using zoneRun_changes[of "\<lambda>s t. updatePositionFromTime t wed wzd s" st audioTimes]
      updatePositionFromTime_step by blast
  ultimately show ?thesis using none by blast
qed

text \<open>
  The two events of the scenario invoke no listener; an event of the type \<open>zonechange\<close>
  would invoke \<open>handleZoneChange\<close>.
\<close>

theorem zone_events_never_reach_handler_witness:
  "snd (zoneRun (\<lambda>s i. updateUIIndicators True
           (Some (zones_of [(0, 0), (1, 0), (2, 0), (3, 1), (4, 1), (5, 2), (6, 2), (7, 2)]))
           (series_of [(0, 1/10), (1, 1/10), (2, 2/10), (3, 5/10), (4, 5/10), (5, 9/10), (6, 9/10), (7, 8/10)]) i s)
         initial_state [0, 1, 2, 3, 4, 5, 6, 7]) =
     [\<lparr>event_type = ''zoneChange'', detail_zone = Some ''medium'', detail_energy = Num (5/10)\<rparr>,
      \<lparr>event_type = ''zoneChange'', detail_zone = Some ''high'', detail_energy = Num (9/10)\<rparr>] \<and>
   dispatchEvent documentListeners
     \<lparr>event_type = ''zoneChange'', detail_zone = Some ''medium'', detail_energy = Num (5/10)\<rparr> = [] \<and>
   dispatchEvent documentListeners
     \<lparr>event_type = ''zoneChange'', detail_zone = Some ''high'', detail_energy = Num (9/10)\<rparr> = [] \<and>
   dispatchEvent documentListeners
     \<lparr>event_type = ''zonechange'', detail_zone = Some ''high'', detail_energy = Num (9/10)\<rparr> = [''handleZoneChange'']"
  using zone_events_never_reach_handler[where el = True
      and zd = "Some (zones_of [(0, 0), (1, 0), (2, 0), (3, 1), (4, 1), (5, 2), (6, 2), (7, 2)])"
      and ed = "series_of [(0, 1/10), (1, 1/10), (2, 2/10), (3, 5/10), (4, 5/10), (5, 9/10), (6, 9/10), (7, 8/10)]"
      and st = initial_state and indices = "[0, 1, 2, 3, 4, 5, 6, 7]"]
  by (simp add: zone_eval series_of_def sample_of_def entry_def field_of_def
      dispatchEvent_def documentListeners_def)

section \<open>Properties of createRollercoaster\<close>








section \<open>Properties of the camera\<close>

lemma energy_at_js_Num:
  assumes "nan_free es" and "at_js es v = Some s" and "typeof_number (field_of s ''energy'')"
  shows "\<exists>q. field_of s ''energy'' = Num q"
  using energy_Num_or_Undefined[OF assms(1,2)] assms(3) by auto

lemma cameraEnergyChangeRate_Num:
  assumes "nan_free es"
  shows "\<exists>r. cameraEnergyChangeRate t es = Num r"
proof -
  define cur where "cur = jfloor (findNormalizedPositionFromTime t (Some es))"
  define prv where "prv = jmax (Num 0) (jsub cur (Num 1))"
  define nxt where "nxt = jmin (Num (of_int (int (length es) - 1))) (jadd cur (Num 1))"
  have unfold: "cameraEnergyChangeRate t es =
      (case (at_js es nxt, at_js es prv) of
           (Some sn, Some sp) \<Rightarrow>
             if typeof_number (field_of sn ''energy'') \<and> typeof_number (field_of sp ''energy'')
             then jdiv (jsub (field_of sn ''energy'') (field_of sp ''energy'')) (Num 2)
             else Num 0
         | _ \<Rightarrow> Num 0)"
    by (simp add: cameraEnergyChangeRate_def Let_def cur_def prv_def nxt_def)
  show ?thesis
  proof (cases "at_js es nxt")
    case None
    then show ?thesis using unfold by simp
  next
    case sn: (Some sn)
    show ?thesis
    proof (cases "at_js es prv")
      case None
      then show ?thesis using unfold sn by simp
    next
      case sp: (Some sp)
      show ?thesis
      proof (cases "typeof_number (field_of sn ''energy'') \<and> typeof_number (field_of sp ''energy'')")
        case True
        obtain a b where "field_of sn ''energy'' = Num a" "field_of sp ''energy'' = Num b"
          using energy_at_js_Num[OF assms sn] energy_at_js_Num[OF assms sp] True by blast
        then have "cameraEnergyChangeRate t es = Num ((a - b) / 2)"
          using unfold sn sp by simp
        then show ?thesis by blast
      next
        case False
        then show ?thesis using unfold sn sp by auto
      qed
    qed
  qed
qed

lemma applyTilt_queries:
  "set (snd (applyTilt path s r cam)) \<subseteq>
     {PointAt (jmin (jadd s (Num (1 / 100))) (Num (99 / 100))), PointAt (jmax (jsub s (Num (1 / 100))) (Num 0))}"
  by (auto simp: applyTilt_def Let_def split: sum.splits option.splits if_splits)

lemma updateCameraPosition_queries:
  "set (snd (updateCameraPosition lookAt md rnd st path audio es cam)) \<subseteq>
     (case audio of
        None \<Rightarrow> {}
      | Some t \<Rightarrow>
          (let s = jmax (Num 0) (jmin (Num (99 / 100)) (findNormalizedPositionFromTime t (Some es)));
               r = cameraEnergyChangeRate t es
           in {PointAt s, TangentAt s,
               PointAt (jmin (jadd s (jmul (Num (1 / 100)) (jadd (Num 1) (jmul (jabs r) (Num 4))))) (Num (99 / 100))),
               PointAt (jmin (jadd s (Num (1 / 100))) (Num (99 / 100))),
               PointAt (jmax (jsub s (Num (1 / 100))) (Num 0))}))"
  using applyTilt_queries
  by (auto simp: updateCameraPosition_def Let_def split: sum.splits option.splits if_splits) blast+

lemma applyTilt_snd:
  "snd (applyTilt path s r cam) =
     (case getPointAt path (jmin (jadd s (Num (1 / 100))) (Num (99 / 100))) of
        Inl e \<Rightarrow> [PointAt (jmin (jadd s (Num (1 / 100))) (Num (99 / 100)))]
      | Inr p \<Rightarrow> [PointAt (jmin (jadd s (Num (1 / 100))) (Num (99 / 100))),
                  PointAt (jmax (jsub s (Num (1 / 100))) (Num 0))])"
  by (auto simp: applyTilt_def Let_def split: sum.splits option.splits if_splits)

lemma toggleViewMode_queries:
  "set (snd (snd (toggleViewMode st path audio wed target))) \<subseteq>
     (case audio of
        None \<Rightarrow> {}
      | Some t \<Rightarrow> {PointAt (jmin (jadd (findNormalizedPositionFromTime t wed) (Num (5 / 100))) (Num (99 / 100)))})"
  by (auto simp: toggleViewMode_def Let_def split: sum.splits option.splits if_splits)

lemma findNormalizedPositionFromTime_None: "findNormalizedPositionFromTime t None = Num 0"
  by (simp add: findNormalizedPositionFromTime_def)

lemma min_cap: "(0::real) \<le> a \<Longrightarrow> 0 \<le> c \<Longrightarrow> \<exists>x. min a c = x \<and> 0 \<le> x \<and> x \<le> c"
  by simp

text \<open>
  The clamps hold apart from \<open>NaN\<close>. For every energy series none of whose fields is
  \<open>NaN\<close> (entries and fields may be missing), every parameter that
  \<open>updateCameraPosition\<close> passes to \<open>getPointAt\<close> or \<open>getTangentAt\<close> (the base
  position, the look-ahead position, the tilt points ahead and behind), and the parameter
  \<open>toggleViewMode\<close> passes to \<open>getPointAt\<close> for the orbit target (with the series set
  or unset), is a number between 0 and 0.99. This holds for every curve, audio time,
  state, camera and random draw.
\<close>

theorem camera_queries_in_range:
  assumes "nan_free es"
  shows "(\<forall>q \<in> set (snd (updateCameraPosition lookAt md rnd st path audio es cam)).
            \<exists>x. query_param q = Num x \<and> 0 \<le> x \<and> x \<le> 99 / 100) \<and>
         (\<forall>q \<in> set (snd (snd (toggleViewMode st path audio (Some es) target))).
            \<exists>x. query_param q = Num x \<and> 0 \<le> x \<and> x \<le> 99 / 100) \<and>
         (\<forall>q \<in> set (snd (snd (toggleViewMode st path audio None target))).
            \<exists>x. query_param q = Num x \<and> 0 \<le> x \<and> x \<le> 99 / 100)"
proof (intro conjI ballI)
  fix q assume q: "q \<in> set (snd (updateCameraPosition lookAt md rnd st path audio es cam))"
  then obtain t where t: "audio = Some t"
    using updateCameraPosition_queries[of lookAt md rnd st path audio es cam] by (cases audio) auto
  obtain p where p: "findNormalizedPositionFromTime t (Some es) = Num p" "0 \<le> p" "p \<le> 99 / 100"
    using findNormalizedPositionFromTime_range[OF assms] by blast
  obtain r where r: "cameraEnergyChangeRate t es = Num r"
    using cameraEnergyChangeRate_Num[OF assms] by blast
  define s where "s = max 0 (min (99 / 100) p)"
  have s: "0 \<le> s" "s \<le> 99 / 100" using p by (auto simp: s_def)
  define la where "la = min (s + 1 / 100 * (1 + \<bar>r\<bar> * 4)) (99 / 100)"
  define ahead where "ahead = min (s + 1 / 100) (99 / 100)"
  define behind where "behind = max (s - 1 / 100) 0"
  have "q \<in> {PointAt (Num s), TangentAt (Num s), PointAt (Num la), PointAt (Num ahead),
               PointAt (Num behind)}"
    using updateCameraPosition_queries[of lookAt md rnd st path audio es cam] q t p(1) r
    by (auto simp: Let_def s_def la_def ahead_def behind_def)
  moreover have "0 \<le> la"
  proof -
    have "0 \<le> 1 / 100 * (1 + \<bar>r\<bar> * 4)" by simp
    then have "0 \<le> s + 1 / 100 * (1 + \<bar>r\<bar> * 4)" using s(1) by linarith
    then show ?thesis unfolding la_def by (simp only: min_def split: if_split) simp
  qed
  moreover have "la \<le> 99 / 100" unfolding la_def by (rule min.cobounded2)
  moreover have "0 \<le> ahead" "ahead \<le> 99 / 100" "0 \<le> behind" "behind \<le> 99 / 100"
    using s unfolding ahead_def behind_def min_def max_def by (simp_all split: if_splits)
  ultimately show "\<exists>x. query_param q = Num x \<and> 0 \<le> x \<and> x \<le> 99 / 100"
    using s by auto
next
  fix q assume q: "q \<in> set (snd (snd (toggleViewMode st path audio (Some es) target)))"
  then obtain t where t: "audio = Some t"
    using toggleViewMode_queries[of st path audio "Some es" target] by (cases audio) auto
  obtain p where p: "findNormalizedPositionFromTime t (Some es) = Num p" "0 \<le> p" "p \<le> 99 / 100"
    using findNormalizedPositionFromTime_range[OF assms] by blast
  have "q = PointAt (Num (min (p + 5 / 100) (99 / 100)))"
    using toggleViewMode_queries[of st path audio "Some es" target] q t p(1) by auto
  moreover have "\<exists>x. min (p + 5 / 100) (99 / 100) = x \<and> 0 \<le> x \<and> x \<le> 99 / 100"
    using p by (intro min_cap) simp_all
  ultimately show "\<exists>x. query_param q = Num x \<and> 0 \<le> x \<and> x \<le> 99 / 100" by auto
next
  fix q assume q: "q \<in> set (snd (snd (toggleViewMode st path audio None target)))"
  then obtain t where t: "audio = Some t"
    using toggleViewMode_queries[of st path audio None target] by (cases audio) auto
  have "q = PointAt (Num (min (5 / 100) (99 / 100)))"
    using toggleViewMode_queries[of st path audio None target] q t
    by (auto simp: findNormalizedPositionFromTime_None)
  moreover have "\<exists>x. min (5 / 100) (99 / 100) = x \<and> 0 \<le> x \<and> x \<le> (99 / 100 :: real)"
    by (intro min_cap) simp_all
  ultimately show "\<exists>x. query_param q = Num x \<and> 0 \<le> x \<and> x \<le> 99 / 100" by auto
qed

text \<open>The defining equations that evaluate the camera functions.\<close>

lemmas camera_eval = updateCameraPosition_def cameraEnergyChangeRate_def applyTilt_def
  applyShake_def toggleViewMode_def validPoint_def crossVectors_def vlength_def
  multiplyScalar_def normalize_def vadd_def defaultHeightAboveTrack_def initial_state_def

text \<open>
  Claim C7 (the code departs from it). The clamps \<open>Math.max(0, Math.min(0.99, x))\<close> and
  \<open>Math.min(x + 0.05, 0.99)\<close> let \<open>NaN\<close> through. In the series whose first energy
  is \<open>NaN\<close>, at playback time 0.5 the speed multiplier of
  \<open>findNormalizedPositionFromTime\<close> is \<open>NaN\<close> and so is the normalized position;
  for every curve, the first query \<open>updateCameraPosition\<close> makes is
  \<open>getPointAt(NaN)\<close>, and \<open>toggleViewMode\<close>, switching to orbit mode, queries
  \<open>getPointAt(NaN)\<close> as well: a parameter outside \<open>[0, 0.99]\<close>.
\<close>

theorem camera_queries_nan:
  "findNormalizedPositionFromTime (Num (1 / 2)) (Some nan_energy_series) = NaN \<and>
   hd (snd (updateCameraPosition lookAt md rnd initial_state (Some path) (Some (Num (1 / 2)))
              nan_energy_series cam)) = PointAt NaN \<and>
   snd (snd (toggleViewMode initial_state (Some path) (Some (Num (1 / 2))) (Some nan_energy_series)
               target)) = [PointAt NaN]"
proof -
  have np: "findNormalizedPositionFromTime (Num (1 / 2)) (Some nan_energy_series) = NaN"
    by (simp add: utils_eval)
  have cam: "hd (snd (updateCameraPosition lookAt md rnd initial_state (Some path) (Some (Num (1 / 2)))
              nan_energy_series cam)) = PointAt NaN"
    by (simp add: updateCameraPosition_def np initial_state_def entry_def Let_def
        split: sum.splits option.splits)
  have tog: "snd (snd (toggleViewMode initial_state (Some path) (Some (Num (1 / 2))) (Some nan_energy_series)
               target)) = [PointAt NaN]"
    by (simp add: toggleViewMode_def np initial_state_def Let_def split: sum.splits option.splits)
  show ?thesis using np cam tog by simp
qed

text \<open>
  On the straight track, from the starting camera: the only query of
  \<open>updateCameraPosition\<close> is \<open>getPointAt(NaN)\<close> (the track returns no point for it,
  and the camera stays where it was), and \<open>toggleViewMode\<close> queries \<open>getPointAt(NaN)\<close>.
\<close>

theorem camera_queries_nan_witness:
  "updateCameraPosition level_lookAt False (0, 0, 0) initial_state (Some line_path) (Some (Num (1 / 2)))
     nan_energy_series start_camera = (start_camera, [PointAt NaN]) \<and>
   snd (snd (toggleViewMode initial_state (Some line_path) (Some (Num (1 / 2))) (Some nan_energy_series)
               \<lparr>vx = Num 0, vy = Num 0, vz = Num 0\<rparr>)) = [PointAt NaN]"
  using camera_queries_nan[of level_lookAt False "(0, 0, 0)" line_path start_camera
      "\<lparr>vx = Num 0, vy = Num 0, vz = Num 0\<rparr>"]
  by (simp add: camera_eval utils_eval jgt_def)

text \<open>
  Claim C8 (the code departs from it). The rate of energy change that drives the camera
  effects is taken at \<open>Math.floor\<close> of the normalized position, which lies in
  \<open>[0, 0.99]\<close>, so its floor is always 0: on every non-empty well-formed series and for
  every playback time, the rate is half the difference of the energies of samples 1 and 0
  (of sample 0 with itself when there is one sample), not the central difference around the
  index resolved from the playback time.
\<close>

theorem cameraEnergyChangeRate_fixed_index:
  assumes "xs \<noteq> []"
  shows "cameraEnergyChangeRate t (series_of xs) =
           Num ((snd (xs ! min (length xs - 1) 1) - snd (xs ! 0)) / 2)"
proof -
  obtain p where p: "findNormalizedPositionFromTime t (Some (series_of xs)) = Num p"
    "0 \<le> p" "p \<le> 99 / 100"
    using findNormalizedPositionFromTime_range[OF nan_free_series_of] by blast
  have fl: "\<lfloor>p\<rfloor> = 0" using p by (simp add: floor_eq_iff)
  have cur: "jfloor (findNormalizedPositionFromTime t (Some (series_of xs))) = Num 0"
    using p(1) fl by simp
  define k where "k = min (length xs - 1) 1"
  have k: "k < length xs" using assms by (cases xs) (auto simp: k_def)
  have nxt: "jmin (Num (of_int (int (length (series_of xs)) - 1))) (jadd (Num 0) (Num 1)) = Num (real k)"
    using assms by (cases xs) (auto simp: k_def length_series_of min_def)
  have e0: "at_js (series_of xs) (Num 0) = sample_of (xs ! 0)"
    using assms by (simp add: at_js_def entry_series_of)
  have ek: "at_js (series_of xs) (Num (real k)) = sample_of (xs ! k)"
    using k by (simp add: at_js_def entry_series_of)
  show ?thesis
    unfolding cameraEnergyChangeRate_def Let_def cur nxt k_def[symmetric]
    by (simp add: e0 ek sample_of_def field_of_def)
qed

text \<open>
  In the scenario at time 3 the resolved index is 3, whose central difference is
  \<open>(0.2 - 0.9) / 2 = -0.35\<close>; the camera computes \<open>(0.2 - 0.1) / 2 = 0.05\<close>.
\<close>

theorem cameraEnergyChangeRate_fixed_index_witness:
  "[(0, 1 / 10), (1, 2 / 10), (2, 9 / 10), (3, 95 / 100), (4::real, 2 / 10::real)] \<noteq> [] \<and>
   findClosestTimeIndex (Num 3) (Some scenario_series) = Inr 3 \<and>
   cameraEnergyChangeRate (Num 3) scenario_series = Num (1 / 20) \<and>
   (2 / 10 - 9 / 10) / 2 = (- 7 / 20 :: real)"
  using cameraEnergyChangeRate_fixed_index[of
      "[(0, 1 / 10), (1, 2 / 10), (2, 9 / 10), (3, 95 / 100), (4, 2 / 10)]" "Num 3"]
  by (simp add: utils_eval)

text \<open>
  On the rising series at time 1 the camera queries the curve at 0.99 (point and tangent),
  0.99 (look-ahead), 0.99 and 0.98 (tilt); switching to orbit mode at time 0.1 queries it at
  0.225.
\<close>

theorem camera_queries_in_range_witness:
  "nan_free rising_series \<and>
   snd (updateCameraPosition level_lookAt False (0, 0, 0) initial_state (Some line_path) (Some (Num 1))
          rising_series start_camera) =
     [PointAt (Num (99 / 100)), TangentAt (Num (99 / 100)), PointAt (Num (99 / 100)),
      PointAt (Num (99 / 100)), PointAt (Num (98 / 100))] \<and>
   snd (snd (toggleViewMode initial_state (Some line_path) (Some (Num (1 / 10))) (Some rising_series)
               \<lparr>vx = Num 0, vy = Num 0, vz = Num 0\<rparr>)) =
     [PointAt (Num (9 / 40))]"
proof -
  have nf: "nan_free rising_series" by (rule nan_free_series_of)
  have ev: "snd (updateCameraPosition level_lookAt False (0, 0, 0) initial_state (Some line_path) (Some (Num 1))
          rising_series start_camera) =
     [PointAt (Num (99 / 100)), TangentAt (Num (99 / 100)), PointAt (Num (99 / 100)),
      PointAt (Num (99 / 100)), PointAt (Num (98 / 100))]"
    "snd (snd (toggleViewMode initial_state (Some line_path) (Some (Num (1 / 10))) (Some rising_series)
               \<lparr>vx = Num 0, vy = Num 0, vz = Num 0\<rparr>)) =
     [PointAt (Num (9 / 40))]"
    by (simp_all add: camera_eval utils_eval jgt_def)
  show ?thesis
    using nf ev camera_queries_in_range[OF nf, where lookAt = level_lookAt and md = False
      and rnd = "(0, 0, 0)" and st = initial_state and path = "Some line_path"
      and audio = "Some (Num 1)" and cam = start_camera]
    by simp
qed






end
